theory Spec2Isabelle
  imports Main "HOL-Library.Word" "HOL-Library.Multiset"
begin

section \<open>The XML substrate\<close>

text \<open>
  The parser of \<^verbatim>\<open>ModelDescriptionParser.cpp\<close> works on a
  \<^verbatim>\<open>boost::property_tree::ptree\<close>: a node holds a data string and an ordered list
  of children, each under a key; keys may repeat.
\<close>

datatype ptree = Ptree (data: string) (children: "(string \<times> ptree) list")

text \<open>
  An XML document as \<^verbatim>\<open>read_xml\<close> sees it: elements with a tag, attributes in
  document order and child nodes; character data; comments.
\<close>

datatype xml =
    Element string "(string \<times> string) list" "xml list"
  | Text string
  | Comment string

text \<open>
  \<^verbatim>\<open>read_xml\<close> pushes every node into its parent: an element becomes a child whose
  key is the tag; its attributes, when there are any, become the children of a first
  child with the key \<^verbatim>\<open><xmlattr>\<close>, the value of each being the data of its node;
  character data is appended to the data of the parent; a comment becomes a child with
  the key \<^verbatim>\<open><xmlcomment>\<close>.
\<close>

definition xmlattr :: string where
  "xmlattr = ''<xmlattr>''"

definition xmlcomment :: string where
  "xmlcomment = ''<xmlcomment>''"

definition push_back :: "string \<times> ptree \<Rightarrow> ptree \<Rightarrow> ptree" where
  "push_back kv pt = Ptree (data pt) (children pt @ [kv])"

definition attr_nodes :: "(string \<times> string) list \<Rightarrow> (string \<times> ptree) list" where
  "attr_nodes as = (if as = [] then []
     else [(xmlattr, Ptree [] (map (\<lambda>(n, v). (n, Ptree v [])) as))])"

fun read_xml_node :: "xml \<Rightarrow> ptree \<Rightarrow> ptree" where
  "read_xml_node (Element t as cs) pt =
     push_back (t, fold read_xml_node cs (Ptree [] (attr_nodes as))) pt"
| "read_xml_node (Text s) pt = Ptree (data pt @ s) (children pt)"
| "read_xml_node (Comment s) pt = push_back (xmlcomment, Ptree s []) pt"

text \<open>The tree that an element with these attributes and child nodes becomes.\<close>

definition element_tree :: "(string \<times> string) list \<Rightarrow> xml list \<Rightarrow> ptree" where
  "element_tree as cs = fold read_xml_node cs (Ptree [] (attr_nodes as))"

text \<open>The tree of a document: its top-level nodes pushed into an empty tree.\<close>

definition read_xml :: "xml list \<Rightarrow> ptree" where
  "read_xml doc = fold read_xml_node doc (Ptree [] [])"

text \<open>
  A tag of a well-formed document is an XML name: it is not empty and holds neither
  \<^verbatim>\<open><\<close> nor \<^verbatim>\<open>>\<close>.
\<close>

definition xml_name :: "string \<Rightarrow> bool" where
  "xml_name t = (t \<noteq> [] \<and> CHR ''<'' \<notin> set t \<and> CHR ''>'' \<notin> set t)"

fun well_formed :: "xml \<Rightarrow> bool" where
  "well_formed (Element t as cs) =
     (xml_name t \<and> list_all (\<lambda>(n, v). xml_name n) as \<and> list_all well_formed cs)"
| "well_formed (Text s) = True"
| "well_formed (Comment s) = True"

subsection \<open>Paths\<close>

text \<open>
  A path is a string of keys separated by dots. \<^verbatim>\<open>get_child_optional\<close> follows it
  from a node, taking at each step the first child with the key.
\<close>

fun fragments :: "string \<Rightarrow> string list" where
  "fragments [] = []"
| "fragments (c # cs) =
     (if c = CHR ''.'' then [] # fragments cs
      else (case fragments cs of [] \<Rightarrow> [[c]] | f # fs \<Rightarrow> (c # f) # fs))"

fun walk_path :: "ptree \<Rightarrow> string list \<Rightarrow> ptree option" where
  "walk_path pt [] = Some pt"
| "walk_path pt (k # ks) =
     (case map_of (children pt) k of None \<Rightarrow> None | Some c \<Rightarrow> walk_path c ks)"

definition get_child_optional :: "ptree \<Rightarrow> string \<Rightarrow> ptree option" where
  "get_child_optional pt path = walk_path pt (fragments path)"

subsection \<open>Errors\<close>

text \<open>
  The exceptions of the parser: the two of the property tree (no node at the path; the
  data of the node is not a value of the type asked for), each with the path, and the
  \<^verbatim>\<open>std::runtime_error\<close> of the source with its message.
\<close>

datatype error =
    ptree_bad_path string
  | ptree_bad_data string
  | runtime_error string

definition bindE :: "error + 'a \<Rightarrow> ('a \<Rightarrow> error + 'b) \<Rightarrow> error + 'b" where
  "bindE r f = (case r of Inl e \<Rightarrow> Inl e | Inr x \<Rightarrow> f x)"

subsection \<open>Typed reads\<close>

text \<open>
  \<^verbatim>\<open>get_optional<T>(path)\<close> has no value when the path leads nowhere or when the
  data is not a \<^verbatim>\<open>T\<close>; \<^verbatim>\<open>get<T>(path)\<close> throws in both cases;
  \<^verbatim>\<open>get<T>(path, default)\<close> gives the default in both cases. The translator from
  strings to \<^verbatim>\<open>T\<close> is the first argument.
\<close>

definition get_optional :: "(string \<Rightarrow> 'a option) \<Rightarrow> ptree \<Rightarrow> string \<Rightarrow> 'a option" where
  "get_optional tr pt path =
     (case get_child_optional pt path of None \<Rightarrow> None | Some c \<Rightarrow> tr (data c))"

definition get :: "(string \<Rightarrow> 'a option) \<Rightarrow> ptree \<Rightarrow> string \<Rightarrow> error + 'a" where
  "get tr pt path =
     (case get_child_optional pt path of
        None \<Rightarrow> Inl (ptree_bad_path path)
      | Some c \<Rightarrow> (case tr (data c) of None \<Rightarrow> Inl (ptree_bad_data path) | Some v \<Rightarrow> Inr v))"

definition get_default :: "(string \<Rightarrow> 'a option) \<Rightarrow> ptree \<Rightarrow> string \<Rightarrow> 'a \<Rightarrow> 'a" where
  "get_default tr pt path d = (case get_optional tr pt path of None \<Rightarrow> d | Some v \<Rightarrow> v)"

subsection \<open>Stream extraction\<close>

text \<open>
  The translators read a value with \<^verbatim>\<open>operator>>\<close> in the classic locale. An
  integer is read past leading white space as an optional sign and a run of decimal
  digits; without a digit the extraction fails.  The result is the sign, the magnitude
  and the rest of the stream.
\<close>

definition isspace :: "char \<Rightarrow> bool" where
  "isspace c = (c \<in> {CHR '' '', CHR 0x09, CHR 0x0A, CHR 0x0B, CHR 0x0C, CHR 0x0D})"

definition isdigit :: "char \<Rightarrow> bool" where
  "isdigit c = (48 \<le> (of_char c :: nat) \<and> (of_char c :: nat) \<le> 57)"

definition decimal :: "string \<Rightarrow> nat" where
  "decimal ds = foldl (\<lambda>a c. 10 * a + ((of_char c :: nat) - 48)) 0 ds"

definition skip_sign :: "string \<Rightarrow> string" where
  "skip_sign s = (case s of [] \<Rightarrow> []
     | c # cs \<Rightarrow> if c = CHR ''-'' \<or> c = CHR ''+'' then cs else s)"

definition scan_integer :: "string \<Rightarrow> (bool \<times> nat) option \<times> string" where
  "scan_integer s =
     (let s1 = dropWhile isspace s;
          s2 = skip_sign s1;
          ds = takeWhile isdigit s2
      in if ds = [] then (None, s2)
         else (Some (take 1 s1 = ''-'', decimal ds), dropWhile isdigit s2))"

text \<open>
  \<^verbatim>\<open>unsigned int\<close> has 32 bits and \<^verbatim>\<open>size_t\<close> 64: a magnitude beyond the
  largest value fails, and a minus sign negates modulo the width. \<^verbatim>\<open>int\<close> has
  32 bits too: a value outside its range fails.
\<close>

definition extract_unsigned :: "string \<Rightarrow> 'a::len word option \<times> string" where
  "extract_unsigned s =
     (case scan_integer s of
        (None, r) \<Rightarrow> (None, r)
      | (Some (neg, n), r) \<Rightarrow>
          if n > 2 ^ LENGTH('a) - 1 then (None, r)
          else (Some (if neg then - word_of_nat n else word_of_nat n), r))"

definition extract_int :: "string \<Rightarrow> int option \<times> string" where
  "extract_int s =
     (case scan_integer s of
        (None, r) \<Rightarrow> (None, r)
      | (Some (neg, n), r) \<Rightarrow>
          if neg then (if n > 2 ^ 31 then (None, r) else (Some (- int n), r))
          else (if n > 2 ^ 31 - 1 then (None, r) else (Some (int n), r)))"

text \<open>
  A \<^verbatim>\<open>bool\<close> is read as a number first, \<^verbatim>\<open>0\<close> or \<^verbatim>\<open>1\<close>; when that
  fails the stream is cleared and the words \<^verbatim>\<open>true\<close> and \<^verbatim>\<open>false\<close> are
  tried from where the first attempt stopped.
\<close>

definition extract_boolalpha :: "string \<Rightarrow> bool option \<times> string" where
  "extract_boolalpha s =
     (let s1 = dropWhile isspace s
      in if take 4 s1 = ''true'' then (Some True, drop 4 s1)
         else if take 5 s1 = ''false'' then (Some False, drop 5 s1)
         else (None, s1))"

definition extract_bool :: "string \<Rightarrow> bool option \<times> string" where
  "extract_bool s =
     (case scan_integer s of
        (Some (neg, n), r) \<Rightarrow>
          if n = 0 then (Some False, r)
          else if n = 1 \<and> \<not> neg then (Some True, r)
          else extract_boolalpha r
      | (None, r) \<Rightarrow> extract_boolalpha r)"

text \<open>
  A translator accepts the extracted value when only white space follows it.
\<close>

definition translate :: "(string \<Rightarrow> 'a option \<times> string) \<Rightarrow> string \<Rightarrow> 'a option" where
  "translate extract s =
     (case extract s of
        (None, r) \<Rightarrow> None
      | (Some v, r) \<Rightarrow> if dropWhile isspace r = [] then Some v else None)"

definition to_string :: "string \<Rightarrow> string option" where
  "to_string s = Some s"

definition to_unsigned :: "string \<Rightarrow> 32 word option" where
  "to_unsigned = translate extract_unsigned"

definition to_size_t :: "string \<Rightarrow> 64 word option" where
  "to_size_t = translate extract_unsigned"

definition to_int :: "string \<Rightarrow> int option" where
  "to_int = translate extract_int"

definition to_bool :: "string \<Rightarrow> bool option" where
  "to_bool = translate extract_bool"

section \<open>The parser\<close>

subsection \<open>Source files\<close>

record SourceFile =
  name :: string

type_synonym SourceFiles = "SourceFile list"

definition parseFile :: "ptree \<Rightarrow> error + SourceFile" where
  "parseFile node =
     bindE (get to_string node ''<xmlattr>.name'') (\<lambda>n. Inr \<lparr>SourceFile.name = n\<rparr>)"

fun parseSourceFiles_loop :: "(string \<times> ptree) list \<Rightarrow> SourceFiles \<Rightarrow> error + SourceFiles" where
  "parseSourceFiles_loop [] files = Inr files"
| "parseSourceFiles_loop (v # vs) files =
     (if fst v = ''File''
      then bindE (parseFile (snd v)) (\<lambda>file. parseSourceFiles_loop vs (files @ [file]))
      else parseSourceFiles_loop vs files)"

definition parseSourceFiles :: "ptree \<Rightarrow> SourceFiles \<Rightarrow> error + SourceFiles" where
  "parseSourceFiles node files = parseSourceFiles_loop (children node) files"

subsection \<open>Unknowns and the model structure\<close>

text \<open>
  \<^verbatim>\<open>parseUnknownDependencies\<close> reads numbers from a string stream as long as the
  extraction succeeds; after each number it looks at the next character and drops it
  when it is a comma or a space.
\<close>

definition ignore_separator :: "string \<Rightarrow> string" where
  "ignore_separator s = (case s of [] \<Rightarrow> []
     | c # cs \<Rightarrow> if c = CHR '','' \<or> c = CHR '' '' then cs else s)"

function parseUnknownDependencies :: "string \<Rightarrow> 32 word list \<Rightarrow> 32 word list" where
  "parseUnknownDependencies str store =
     (case extract_unsigned str of
        (None, ss) \<Rightarrow> store
      | (Some i, ss) \<Rightarrow> parseUnknownDependencies (ignore_separator ss) (store @ [i]))"
  by pat_completeness auto
termination
proof (relation "measure (\<lambda>(str, store). length str)")
  show "wf (measure (\<lambda>(str, store). length str))"
    by simp
next
  fix str :: string and store :: "32 word list" and x :: "32 word option" and ss i
  assume ex: "(x, ss) = extract_unsigned str" and some: "x = Some i"
  obtain neg n where sc: "scan_integer str = (Some (neg, n), ss)"
    using ex some
    by (auto simp: extract_unsigned_def split: prod.splits option.splits if_splits)
  define s2 where "s2 = skip_sign (dropWhile isspace str)"
  have ne: "takeWhile isdigit s2 \<noteq> []" and ss: "ss = dropWhile isdigit s2"
    using sc by (auto simp: scan_integer_def Let_def s2_def split: if_splits)
  have "length ss < length s2"
  proof (cases s2)
    case Nil
    with ne show ?thesis by simp
  next
    case (Cons c cs)
    with ne have "isdigit c" by (simp split: if_splits)
    then have "ss = dropWhile isdigit cs" unfolding ss Cons by simp
    then show ?thesis
      unfolding Cons using length_dropWhile_le [of isdigit cs] by simp
  qed
  moreover have "length s2 \<le> length (dropWhile isspace str)"
    unfolding s2_def skip_sign_def by (auto split: list.splits)
  moreover have "length (dropWhile isspace str) \<le> length str"
    by (rule length_dropWhile_le)
  moreover have "length (ignore_separator ss) \<le> length ss"
    unfolding ignore_separator_def by (auto split: list.splits)
  ultimately show "((ignore_separator ss, store @ [i]), (str, store))
      \<in> measure (\<lambda>(str, store). length str)"
    by simp
qed

declare parseUnknownDependencies.simps [simp del]

text \<open>
  \<^verbatim>\<open>boost::split\<close> with the default \<^verbatim>\<open>token_compress_off\<close>: the string is cut
  at every character of the predicate, and the pieces, empty ones too, replace the
  contents of the store.
\<close>

fun split :: "(char \<Rightarrow> bool) \<Rightarrow> string \<Rightarrow> string list" where
  "split P [] = [[]]"
| "split P (c # cs) =
     (if P c then [] # split P cs
      else (case split P cs of [] \<Rightarrow> [[c]] | t # ts \<Rightarrow> (c # t) # ts))"

definition parseUnknownDependenciesKind :: "string \<Rightarrow> string list \<Rightarrow> string list" where
  "parseUnknownDependenciesKind str store = split (\<lambda>c. c = CHR '' '') str"

record Unknown =
  index :: "32 word"
  dependencies :: "32 word list option"
  dependenciesKind :: "string list option"

definition parseUnknown :: "ptree \<Rightarrow> error + Unknown" where
  "parseUnknown node =
     bindE (get to_unsigned node ''<xmlattr>.index'') (\<lambda>idx.
       Inr \<lparr>index = idx,
            dependencies =
              (case get_optional to_string node ''<xmlattr>.dependencies'' of
                 None \<Rightarrow> None
               | Some opt_dependencies \<Rightarrow> Some (parseUnknownDependencies opt_dependencies [])),
            dependenciesKind =
              (case get_optional to_string node ''<xmlattr>.dependenciesKind'' of
                 None \<Rightarrow> None
               | Some opt_dependenciesKind \<Rightarrow>
                   Some (parseUnknownDependenciesKind opt_dependenciesKind []))\<rparr>)"

fun loadUnknowns_loop :: "(string \<times> ptree) list \<Rightarrow> Unknown list \<Rightarrow> error + Unknown list" where
  "loadUnknowns_loop [] vector = Inr vector"
| "loadUnknowns_loop (v # vs) vector =
     (if fst v = ''Unknown''
      then bindE (parseUnknown (snd v)) (\<lambda>unknown. loadUnknowns_loop vs (vector @ [unknown]))
      else loadUnknowns_loop vs vector)"

definition loadUnknowns :: "ptree \<Rightarrow> Unknown list \<Rightarrow> error + Unknown list" where
  "loadUnknowns node vector = loadUnknowns_loop (children node) vector"

record ModelStructure =
  outputs :: "Unknown list"
  derivatives :: "Unknown list"
  initialUnknowns :: "Unknown list"

fun parseModelStructure_loop ::
  "(string \<times> ptree) list \<Rightarrow> ModelStructure \<Rightarrow> error + ModelStructure" where
  "parseModelStructure_loop [] ms = Inr ms"
| "parseModelStructure_loop (v # vs) ms =
     (if fst v = ''Outputs''
      then bindE (loadUnknowns (snd v) (outputs ms))
             (\<lambda>us. parseModelStructure_loop vs (ms\<lparr>outputs := us\<rparr>))
      else if fst v = ''Derivatives''
      then bindE (loadUnknowns (snd v) (derivatives ms))
             (\<lambda>us. parseModelStructure_loop vs (ms\<lparr>derivatives := us\<rparr>))
      else if fst v = ''InitialUnknowns''
      then bindE (loadUnknowns (snd v) (initialUnknowns ms))
             (\<lambda>us. parseModelStructure_loop vs (ms\<lparr>initialUnknowns := us\<rparr>))
      else parseModelStructure_loop vs ms)"

definition parseModelStructure :: "ptree \<Rightarrow> error + ModelStructure" where
  "parseModelStructure node =
     parseModelStructure_loop (children node)
       \<lparr>outputs = [], derivatives = [], initialUnknowns = []\<rparr>"

subsection \<open>What the parser takes from elsewhere\<close>

text \<open>
  The types \<^verbatim>\<open>double\<close>, \<^verbatim>\<open>Causality\<close>, \<^verbatim>\<open>Variability\<close> and
  \<^verbatim>\<open>Initial\<close>, the translator from strings to \<^verbatim>\<open>double\<close> and the three
  functions that read an enumeration from a string are declared outside
  \<^verbatim>\<open>ModelDescriptionParser.cpp\<close>. The types are left opaque and the four functions
  are a parameter of the parser.
\<close>

typedecl double
typedecl Causality
typedecl Variability
typedecl Initial

record externals =
  to_double :: "string \<Rightarrow> double option"
  parseCausality :: "string \<Rightarrow> Causality"
  parseVariability :: "string \<Rightarrow> Variability"
  parseInitial :: "string \<Rightarrow> Initial"

subsection \<open>The default experiment\<close>

record DefaultExperiment =
  startTime :: "double option"
  stopTime :: "double option"
  stepSize :: "double option"
  tolerance :: "double option"

definition parseDefaultExperiment :: "externals \<Rightarrow> ptree \<Rightarrow> DefaultExperiment" where
  "parseDefaultExperiment X node =
     \<lparr>startTime = get_optional (to_double X) node ''<xmlattr>.startTime'',
      stopTime = get_optional (to_double X) node ''<xmlattr>.stopTime'',
      stepSize = get_optional (to_double X) node ''<xmlattr>.stepSize'',
      tolerance = get_optional (to_double X) node ''<xmlattr>.tolerance''\<rparr>"

subsection \<open>The attributes of an FMU\<close>

record FmuAttributes =
  modelIdentifier :: string
  needsExecutionTool :: bool
  canGetAndSetFMUstate :: bool
  canSerializeFMUstate :: bool
  providesDirectionalDerivative :: bool
  canNotUseMemoryManagementFunctions :: bool
  canBeInstantiatedOnlyOncePerProcess :: bool
  sourceFiles :: SourceFiles

record CoSimulationAttributes = FmuAttributes +
  maxOutputDerivativeOrder :: "32 word"
  canInterpolateInputs :: bool
  canRunAsynchronuously :: bool
  canHandleVariableCommunicationStepSize :: bool

record ModelExchangeAttributes = FmuAttributes +
  completedIntegratorStepNotNeeded :: bool

fun parseFmuAttributes_loop :: "(string \<times> ptree) list \<Rightarrow> SourceFiles \<Rightarrow> error + SourceFiles" where
  "parseFmuAttributes_loop [] files = Inr files"
| "parseFmuAttributes_loop (v # vs) files =
     (if fst v = ''SourceFiles''
      then bindE (parseSourceFiles (snd v) files) (\<lambda>files'. parseFmuAttributes_loop vs files')
      else parseFmuAttributes_loop vs files)"

definition parseFmuAttributes :: "ptree \<Rightarrow> error + FmuAttributes" where
  "parseFmuAttributes node =
     bindE (get to_string node ''<xmlattr>.modelIdentifier'') (\<lambda>identifier.
     bindE (parseFmuAttributes_loop (children node) []) (\<lambda>files.
       Inr \<lparr>modelIdentifier = identifier,
            needsExecutionTool =
              get_default to_bool node ''xmlattr>.needsExecutionTool'' False,
            canGetAndSetFMUstate =
              get_default to_bool node ''xmlattr>.canGetAndSetFMUstate'' False,
            canSerializeFMUstate =
              get_default to_bool node ''xmlattr>.canSerializeFMUstate'' False,
            providesDirectionalDerivative =
              get_default to_bool node ''xmlattr>.providesDirectionalDerivative'' False,
            canNotUseMemoryManagementFunctions =
              get_default to_bool node ''xmlattr>.canNotUseMemoryManagementFunctions'' False,
            canBeInstantiatedOnlyOncePerProcess =
              get_default to_bool node ''xmlattr>.canBeInstantiatedOnlyOncePerProcess'' False,
            sourceFiles = files\<rparr>))"

definition parseCoSimulationAttributes :: "ptree \<Rightarrow> error + CoSimulationAttributes" where
  "parseCoSimulationAttributes node =
     bindE (parseFmuAttributes node) (\<lambda>a.
       Inr \<lparr>modelIdentifier = modelIdentifier a,
            needsExecutionTool = needsExecutionTool a,
            canGetAndSetFMUstate = canGetAndSetFMUstate a,
            canSerializeFMUstate = canSerializeFMUstate a,
            providesDirectionalDerivative = providesDirectionalDerivative a,
            canNotUseMemoryManagementFunctions = canNotUseMemoryManagementFunctions a,
            canBeInstantiatedOnlyOncePerProcess = canBeInstantiatedOnlyOncePerProcess a,
            sourceFiles = sourceFiles a,
            maxOutputDerivativeOrder =
              get_default to_unsigned node ''<xmlattr>.maxOutputDerivativeOrder'' 0,
            canInterpolateInputs =
              get_default to_bool node ''<xmlattr>.canInterpolateInputs'' False,
            canRunAsynchronuously =
              get_default to_bool node ''<xmlattr>.canRunAsynchronuously'' False,
            canHandleVariableCommunicationStepSize =
              get_default to_bool node ''<xmlattr>.canHandleVariableCommunicationStepSize''
                False\<rparr>)"

definition parseModelExchangeAttributes :: "ptree \<Rightarrow> error + ModelExchangeAttributes" where
  "parseModelExchangeAttributes node =
     bindE (parseFmuAttributes node) (\<lambda>a.
       Inr \<lparr>modelIdentifier = modelIdentifier a,
            needsExecutionTool = needsExecutionTool a,
            canGetAndSetFMUstate = canGetAndSetFMUstate a,
            canSerializeFMUstate = canSerializeFMUstate a,
            providesDirectionalDerivative = providesDirectionalDerivative a,
            canNotUseMemoryManagementFunctions = canNotUseMemoryManagementFunctions a,
            canBeInstantiatedOnlyOncePerProcess = canBeInstantiatedOnlyOncePerProcess a,
            sourceFiles = sourceFiles a,
            completedIntegratorStepNotNeeded =
              get_default to_bool node ''<xmlattr>.completedIntegratorStepNotNeeded''
                False\<rparr>)"

subsection \<open>Scalar variables\<close>

record 'a ScalarVariableAttribute =
  start :: "'a option"
  declaredType :: "string option"

record 'a BoundedScalarVariableAttribute = "'a ScalarVariableAttribute" +
  min_value :: "'a option"
  max_value :: "'a option"
  quantity :: "string option"

record RealAttribute = "double BoundedScalarVariableAttribute" +
  nominal :: "double option"
  unit :: "string option"
  derivative :: "32 word option"
  reinit :: bool
  unbounded :: bool
  relativeQuantity :: bool

type_synonym IntegerAttribute = "int BoundedScalarVariableAttribute"
type_synonym StringAttribute = "string ScalarVariableAttribute"
type_synonym BooleanAttribute = "bool ScalarVariableAttribute"
type_synonym EnumerationAttribute = "int BoundedScalarVariableAttribute"

definition parseScalarVariableAttributes ::
  "(string \<Rightarrow> 'a option) \<Rightarrow> ptree \<Rightarrow> 'a ScalarVariableAttribute" where
  "parseScalarVariableAttributes tr node =
     \<lparr>start = get_optional tr node ''<xmlattr>.start'',
      declaredType = get_optional to_string node ''<xmlattr>.declaredType''\<rparr>"

definition parseBoundedScalarVariableAttributes ::
  "(string \<Rightarrow> 'a option) \<Rightarrow> ptree \<Rightarrow> 'a BoundedScalarVariableAttribute" where
  "parseBoundedScalarVariableAttributes tr node =
     (let a = parseScalarVariableAttributes tr node
      in \<lparr>start = start a, declaredType = declaredType a,
          min_value = get_optional tr node ''<xmlattr>.min'',
          max_value = get_optional tr node ''<xmlattr>.max'',
          quantity = get_optional to_string node ''<xmlattr>.quantity''\<rparr>)"

definition parseIntegerAttribute :: "ptree \<Rightarrow> IntegerAttribute" where
  "parseIntegerAttribute node = parseBoundedScalarVariableAttributes to_int node"

definition parseRealAttribute :: "externals \<Rightarrow> ptree \<Rightarrow> RealAttribute" where
  "parseRealAttribute X node =
     (let a = parseBoundedScalarVariableAttributes (to_double X) node
      in \<lparr>start = start a, declaredType = declaredType a,
          min_value = min_value a, max_value = max_value a, quantity = quantity a,
          nominal = get_optional (to_double X) node ''<xmlattr>.nominal'',
          unit = get_optional to_string node ''<xmlattr>.unit'',
          derivative = get_optional to_unsigned node ''<xmlattr>.derivative'',
          reinit = get_default to_bool node ''<xmlattr>.reinit'' False,
          unbounded = get_default to_bool node ''<xmlattr>.unbounded'' False,
          relativeQuantity = get_default to_bool node ''<xmlattr>.relativeQuantity'' False\<rparr>)"

definition parseStringAttribute :: "ptree \<Rightarrow> StringAttribute" where
  "parseStringAttribute node = parseScalarVariableAttributes to_string node"

definition parseBooleanAttribute :: "ptree \<Rightarrow> BooleanAttribute" where
  "parseBooleanAttribute node = parseScalarVariableAttributes to_bool node"

definition parseEnumerationAttribute :: "ptree \<Rightarrow> EnumerationAttribute" where
  "parseEnumerationAttribute node = parseBoundedScalarVariableAttributes to_int node"

text \<open>
  Modelled from the spec: the five tag constants \<^verbatim>\<open>INTEGER_TYPE\<close>,
  \<^verbatim>\<open>REAL_TYPE\<close>, \<^verbatim>\<open>STRING_TYPE\<close>, \<^verbatim>\<open>BOOLEAN_TYPE\<close> and
  \<^verbatim>\<open>ENUMERATION_TYPE\<close>, declared in a header: "one of the five type names:
  Integer, Real, String, Boolean, Enumeration".
\<close>

definition INTEGER_TYPE :: string where
  "INTEGER_TYPE = ''Integer''"

definition REAL_TYPE :: string where
  "REAL_TYPE = ''Real''"

definition STRING_TYPE :: string where
  "STRING_TYPE = ''String''"

definition BOOLEAN_TYPE :: string where
  "BOOLEAN_TYPE = ''Boolean''"

definition ENUMERATION_TYPE :: string where
  "ENUMERATION_TYPE = ''Enumeration''"

record ScalarVariableBase =
  name :: string
  description :: string
  valueReference :: "32 word"
  canHandleMultipleSetPerTimelnstant :: bool
  causality :: Causality
  variability :: Variability
  initial :: Initial

text \<open>The five constructors of \<^verbatim>\<open>ScalarVariable\<close>, one for each kind of attribute.\<close>

datatype TypedAttribute =
    IntegerVariable IntegerAttribute
  | RealVariable RealAttribute
  | StringVariable StringAttribute
  | BooleanVariable BooleanAttribute
  | EnumerationVariable EnumerationAttribute

record ScalarVariable =
  base :: ScalarVariableBase
  attribute :: TypedAttribute

fun parseScalarVariable_loop ::
  "externals \<Rightarrow> ScalarVariableBase \<Rightarrow> (string \<times> ptree) list \<Rightarrow> error + ScalarVariable" where
  "parseScalarVariable_loop X b [] =
     Inl (runtime_error ''FATAL: Failed to parse ScalarVariable!'')"
| "parseScalarVariable_loop X b (v # vs) =
     (if fst v = INTEGER_TYPE
      then Inr \<lparr>ScalarVariable.base = b, attribute = IntegerVariable (parseIntegerAttribute (snd v))\<rparr>
      else if fst v = REAL_TYPE
      then Inr \<lparr>ScalarVariable.base = b, attribute = RealVariable (parseRealAttribute X (snd v))\<rparr>
      else if fst v = STRING_TYPE
      then Inr \<lparr>ScalarVariable.base = b, attribute = StringVariable (parseStringAttribute (snd v))\<rparr>
      else if fst v = BOOLEAN_TYPE
      then Inr \<lparr>ScalarVariable.base = b, attribute = BooleanVariable (parseBooleanAttribute (snd v))\<rparr>
      else if fst v = ENUMERATION_TYPE
      then Inr \<lparr>ScalarVariable.base = b, attribute = EnumerationVariable (parseEnumerationAttribute (snd v))\<rparr>
      else parseScalarVariable_loop X b vs)"

definition parseScalarVariable :: "externals \<Rightarrow> ptree \<Rightarrow> error + ScalarVariable" where
  "parseScalarVariable X node =
     bindE (get to_string node ''<xmlattr>.name'') (\<lambda>n.
     bindE (get to_unsigned node ''<xmlattr>.valueReference'') (\<lambda>vr.
       parseScalarVariable_loop X
         \<lparr>name = n,
          ScalarVariableBase.description = get_default to_string node ''<xmlattr>.description'' [],
          valueReference = vr,
          canHandleMultipleSetPerTimelnstant =
            get_default to_bool node ''<xmlattr>.canHandleMultipleSetPerTimelnstant'' False,
          causality = parseCausality X (get_default to_string node ''<xmlattr>.causality'' []),
          variability =
            parseVariability X (get_default to_string node ''<xmlattr>.variability'' []),
          initial = parseInitial X (get_default to_string node ''<xmlattr>.initial'' [])\<rparr>
         (children node)))"

record ModelVariables =
  variables :: "ScalarVariable list"

fun parseModelVariables_loop ::
  "externals \<Rightarrow> (string \<times> ptree) list \<Rightarrow> ScalarVariable list \<Rightarrow> error + ScalarVariable list" where
  "parseModelVariables_loop X [] vars = Inr vars"
| "parseModelVariables_loop X (v # vs) vars =
     (if fst v = ''ScalarVariable''
      then bindE (parseScalarVariable X (snd v))
             (\<lambda>var. parseModelVariables_loop X vs (vars @ [var]))
      else parseModelVariables_loop X vs vars)"

definition parseModelVariables :: "externals \<Rightarrow> ptree \<Rightarrow> error + ModelVariables" where
  "parseModelVariables X node =
     bindE (parseModelVariables_loop X (children node) []) (\<lambda>vars. Inr \<lparr>variables = vars\<rparr>)"

subsection \<open>The model description\<close>

text \<open>
  \<^verbatim>\<open>ModelDescriptionBase\<close> is declared in a header; the parser shows its fields.
  \<^verbatim>\<open>modelVariables\<close> and \<^verbatim>\<open>modelStructure\<close> are smart pointers: each is
  assigned the \<^verbatim>\<open>std::unique_ptr\<close> that its parser returns, and the base is copied
  into the description. \<open>None\<close> is the null pointer, which a default-constructed smart
  pointer holds until it is assigned; \<^verbatim>\<open>defaultExperiment\<close> is a
  \<^verbatim>\<open>std::optional\<close>.
\<close>

record ModelDescriptionBase =
  guid :: string
  fmiVersion :: string
  modelName :: string
  description :: string
  author :: string
  version :: string
  license :: string
  copyright :: string
  generationTool :: string
  generationDateAndTime :: string
  numberOfEventIndicators :: "64 word"
  variableNamingConvention :: string
  modelVariables :: "ModelVariables option"
  modelStructure :: "ModelStructure option"
  defaultExperiment :: "DefaultExperiment option"

record ModelDescription =
  base :: ModelDescriptionBase
  coSimulation :: "CoSimulationAttributes option"
  modelExchange :: "ModelExchangeAttributes option"

definition DEFAULT_VARIABLE_NAMING_CONVENTION :: string where
  "DEFAULT_VARIABLE_NAMING_CONVENTION = ''flat''"

fun parseModelDescription_loop ::
  "externals \<Rightarrow> (string \<times> ptree) list \<Rightarrow> ModelDescription \<Rightarrow> error + ModelDescription" where
  "parseModelDescription_loop X [] md = Inr md"
| "parseModelDescription_loop X (v # vs) md =
     (if fst v = ''CoSimulation''
      then bindE (parseCoSimulationAttributes (snd v))
             (\<lambda>a. parseModelDescription_loop X vs (md\<lparr>coSimulation := Some a\<rparr>))
      else if fst v = ''ModelExchange''
      then bindE (parseModelExchangeAttributes (snd v))
             (\<lambda>a. parseModelDescription_loop X vs (md\<lparr>modelExchange := Some a\<rparr>))
      else if fst v = ''DefaultExperiment''
      then parseModelDescription_loop X vs
             (md\<lparr>base := (base md)\<lparr>defaultExperiment :=
                Some (parseDefaultExperiment X (snd v))\<rparr>\<rparr>)
      else if fst v = ''ModelVariables''
      then bindE (parseModelVariables X (snd v))
             (\<lambda>mv. parseModelDescription_loop X vs
                (md\<lparr>base := (base md)\<lparr>modelVariables := Some mv\<rparr>\<rparr>))
      else if fst v = ''ModelStructure''
      then bindE (parseModelStructure (snd v))
             (\<lambda>ms. parseModelDescription_loop X vs
                (md\<lparr>base := (base md)\<lparr>modelStructure := Some ms\<rparr>\<rparr>))
      else parseModelDescription_loop X vs md)"

text \<open>
  The part of \<^verbatim>\<open>parseModelDescription\<close> after \<^verbatim>\<open>read_xml\<close>: the root is
  looked up in the tree, the base is read from its attributes, and the loop over its
  children fills the rest.
\<close>

definition parseModelDescription_tree :: "externals \<Rightarrow> ptree \<Rightarrow> error + ModelDescription" where
  "parseModelDescription_tree X tree =
     (case get_child_optional tree ''fmiModelDescription'' of
        None \<Rightarrow> Inl (ptree_bad_path ''fmiModelDescription'')
      | Some root \<Rightarrow>
          bindE (get to_string root ''<xmlattr>.guid'') (\<lambda>g.
          bindE (get to_string root ''<xmlattr>.fmiVersion'') (\<lambda>fv.
          bindE (get to_string root ''<xmlattr>.modelName'') (\<lambda>mn.
            parseModelDescription_loop X (children root)
              \<lparr>base =
                 \<lparr>guid = g, fmiVersion = fv, modelName = mn,
                  description = get_default to_string root ''<xmlattr>.description'' [],
                  author = get_default to_string root ''<xmlattr>.author'' [],
                  version = get_default to_string root ''<xmlattr>.version'' [],
                  license = get_default to_string root ''<xmlattr>.license'' [],
                  copyright = get_default to_string root ''<xmlattr>.copyright'' [],
                  generationTool = get_default to_string root ''<xmlattr>.generationTool'' [],
                  generationDateAndTime =
                    get_default to_string root ''<xmlattr>.generationDateAndTime'' [],
                  numberOfEventIndicators =
                    get_default to_size_t root ''<xmlattr>.numberOfEventIndicators'' 0,
                  variableNamingConvention =
                    get_default to_string root ''<xmlattr>.variableNamingConvention''
                      DEFAULT_VARIABLE_NAMING_CONVENTION,
                  modelVariables = None, modelStructure = None, defaultExperiment = None\<rparr>,
               coSimulation = None, modelExchange = None\<rparr>))))"

text \<open>
  The entry point, on a document that \<^verbatim>\<open>read_xml\<close> could read (a file that
  cannot be read or is not XML raises an error of the reader before the parser starts).
\<close>

definition parseModelDescription :: "externals \<Rightarrow> xml list \<Rightarrow> error + ModelDescription" where
  "parseModelDescription X doc = parseModelDescription_tree X (read_xml doc)"

subsection \<open>Notions for stating the properties\<close>

text \<open>The children that a node of a document adds to the tree of its parent.\<close>

fun entries :: "xml \<Rightarrow> (string \<times> ptree) list" where
  "entries (Element t as cs) = [(t, element_tree as cs)]"
| "entries (Text s) = []"
| "entries (Comment s) = [(xmlcomment, Ptree s [])]"

text \<open>
  An element with a given tag, the tree of a node, the child nodes of a node, and the
  elements tagged \<open>item\<close> inside the children tagged \<open>section\<close>, in document order.
\<close>

fun element_tagged :: "string \<Rightarrow> xml \<Rightarrow> bool" where
  "element_tagged k (Element t as cs) = (t = k)"
| "element_tagged k (Text s) = False"
| "element_tagged k (Comment s) = False"

fun tree_of :: "xml \<Rightarrow> ptree" where
  "tree_of (Element t as cs) = element_tree as cs"
| "tree_of (Text s) = Ptree s []"
| "tree_of (Comment s) = Ptree s []"

fun child_nodes :: "xml \<Rightarrow> xml list" where
  "child_nodes (Element t as cs) = cs"
| "child_nodes (Text s) = []"
| "child_nodes (Comment s) = []"

definition inner_elements :: "string \<Rightarrow> string \<Rightarrow> xml list \<Rightarrow> xml list" where
  "inner_elements section item cs =
     concat (map (\<lambda>c. filter (element_tagged item) (child_nodes c))
       (filter (element_tagged section) cs))"

text \<open>The children of a tree under a key, in order.\<close>

definition keyed :: "string \<Rightarrow> (string \<times> ptree) list \<Rightarrow> ptree list" where
  "keyed k vs = map snd (filter (\<lambda>v. fst v = k) vs)"

text \<open>The trees under the key \<^verbatim>\<open>Unknown\<close> inside the children under a key.\<close>

definition unknowns_in :: "string \<Rightarrow> (string \<times> ptree) list \<Rightarrow> ptree list" where
  "unknowns_in s vs = concat (map (\<lambda>t. keyed ''Unknown'' (children t)) (keyed s vs))"

text \<open>
  The five tags that give a scalar variable its type, and the lists of nodes none of
  which is an element with one of them.
\<close>

definition type_names :: "string list" where
  "type_names = [INTEGER_TYPE, REAL_TYPE, STRING_TYPE, BOOLEAN_TYPE, ENUMERATION_TYPE]"

definition untyped :: "xml list \<Rightarrow> bool" where
  "untyped cs = list_all (\<lambda>c. list_all (\<lambda>t. \<not> element_tagged t c) type_names) cs"

text \<open>A model description with its variables, or its structure, set to the null pointer.\<close>

definition without_variables :: "ModelDescription \<Rightarrow> ModelDescription" where
  "without_variables md = md\<lparr>base := (base md)\<lparr>modelVariables := None\<rparr>\<rparr>"

definition without_structure :: "ModelDescription \<Rightarrow> ModelDescription" where
  "without_structure md = md\<lparr>base := (base md)\<lparr>modelStructure := None\<rparr>\<rparr>"

text \<open>The value of a result, when there is one.\<close>

definition value_of :: "error + 'a \<Rightarrow> 'a option" where
  "value_of r = (case r of Inl e \<Rightarrow> None | Inr x \<Rightarrow> Some x)"

text \<open>The five tags that the loop over the children of the root knows, and the tag of a node.\<close>

definition top_level_tags :: "string list" where
  "top_level_tags = [''CoSimulation'', ''ModelExchange'', ''DefaultExperiment'',
     ''ModelVariables'', ''ModelStructure'']"

fun tag :: "xml \<Rightarrow> string" where
  "tag (Element t as cs) = t"
| "tag (Text s) = []"
| "tag (Comment s) = []"

text \<open>
  One turn of the loop over the children of the root, in two parts: whether the child
  parses, and what a child that parses does to the description.
\<close>

definition child_parses :: "externals \<Rightarrow> string \<times> ptree \<Rightarrow> bool" where
  "child_parses X v =
     (if fst v = ''CoSimulation'' then \<not> isl (parseCoSimulationAttributes (snd v))
      else if fst v = ''ModelExchange'' then \<not> isl (parseModelExchangeAttributes (snd v))
      else if fst v = ''ModelVariables'' then \<not> isl (parseModelVariables X (snd v))
      else if fst v = ''ModelStructure'' then \<not> isl (parseModelStructure (snd v))
      else True)"

definition child_update ::
  "externals \<Rightarrow> string \<times> ptree \<Rightarrow> ModelDescription \<Rightarrow> ModelDescription" where
  "child_update X v md =
     (if fst v = ''CoSimulation''
      then md\<lparr>coSimulation := Some (projr (parseCoSimulationAttributes (snd v)))\<rparr>
      else if fst v = ''ModelExchange''
      then md\<lparr>modelExchange := Some (projr (parseModelExchangeAttributes (snd v)))\<rparr>
      else if fst v = ''DefaultExperiment''
      then md\<lparr>base := (base md)\<lparr>defaultExperiment :=
             Some (parseDefaultExperiment X (snd v))\<rparr>\<rparr>
      else if fst v = ''ModelVariables''
      then md\<lparr>base := (base md)\<lparr>modelVariables :=
             Some (projr (parseModelVariables X (snd v)))\<rparr>\<rparr>
      else if fst v = ''ModelStructure''
      then md\<lparr>base := (base md)\<lparr>modelStructure :=
             Some (projr (parseModelStructure (snd v)))\<rparr>\<rparr>
      else md)"

text \<open>
  The rule that the specification prescribes for \<^verbatim>\<open>dependenciesKind\<close>: "split on
  runs of whitespace and drop empties".
\<close>

definition split_on_whitespace_runs :: "string \<Rightarrow> string list" where
  "split_on_whitespace_runs s = filter (\<lambda>t. t \<noteq> []) (split isspace s)"

text \<open>The tokens of a list written one after the other, a single space between two.\<close>

fun join :: "string list \<Rightarrow> string" where
  "join [] = []"
| "join [t] = t"
| "join (t # ts) = t @ CHR '' '' # join ts"

subsection \<open>Evaluation\<close>

lemmas tree_defs = read_xml_def element_tree_def push_back_def attr_nodes_def xmlattr_def xmlcomment_def

lemmas get_defs = get_def get_optional_def get_default_def get_child_optional_def bindE_def

lemmas translator_defs = to_string_def to_unsigned_def to_size_t_def to_int_def to_bool_def
  translate_def extract_unsigned_def extract_int_def extract_bool_def extract_boolalpha_def
  scan_integer_def skip_sign_def isspace_def isdigit_def decimal_def ignore_separator_def

lemmas type_defs = INTEGER_TYPE_def REAL_TYPE_def STRING_TYPE_def BOOLEAN_TYPE_def
  ENUMERATION_TYPE_def

lemmas parser_defs = parseFile_def parseSourceFiles_def parseUnknown_def loadUnknowns_def
  parseModelStructure_def parseFmuAttributes_def parseCoSimulationAttributes_def
  parseModelExchangeAttributes_def parseDefaultExperiment_def parseScalarVariable_def
  parseModelVariables_def parseModelDescription_tree_def parseModelDescription_def
  parseScalarVariableAttributes_def parseBoundedScalarVariableAttributes_def
  parseIntegerAttribute_def parseRealAttribute_def parseStringAttribute_def
  parseBooleanAttribute_def parseEnumerationAttribute_def parseUnknownDependenciesKind_def
  DEFAULT_VARIABLE_NAMING_CONVENTION_def

section \<open>Trees of documents\<close>

lemma read_xml_node_children: "children (read_xml_node c pt) = children pt @ entries c"
  by (cases c) (simp_all add: push_back_def element_tree_def)

lemma fold_read_xml_node_children:
  "children (fold read_xml_node cs pt) = children pt @ concat (map entries cs)"
  by (induction cs arbitrary: pt) (simp_all add: read_xml_node_children)

lemma children_element_tree:
  "children (element_tree as cs) = attr_nodes as @ concat (map entries cs)"
  by (simp add: element_tree_def fold_read_xml_node_children)

lemma read_xml_single: "read_xml [Element t as cs] = Ptree [] [(t, element_tree as cs)]"
  by (simp add: read_xml_def push_back_def element_tree_def)

lemma entries_key:
  "well_formed c \<Longrightarrow> (k, t) \<in> set (entries c) \<Longrightarrow> k = xmlcomment \<or> xml_name k"
  by (cases c) auto

lemma entries_no_key:
  assumes "list_all well_formed cs" and "k \<noteq> xmlcomment" and "\<not> xml_name k"
  shows "map_of (concat (map entries cs)) k = None"
proof -
  have "k \<notin> fst ` set (concat (map entries cs))"
    using assms entries_key by (fastforce simp: list_all_iff)
  then show ?thesis by (simp add: map_of_eq_None_iff)
qed

lemma map_of_attr_nodes:
  "map_of (map (\<lambda>(n, v). (n, Ptree v [])) as) n = map_option (\<lambda>v. Ptree v []) (map_of as n)"
  by (induction as) auto

text \<open>
  In the tree of an element with well-formed children, the path
  \<^verbatim>\<open><xmlattr>.n\<close> leads to the value of the attribute \<open>n\<close>.
\<close>

lemma walk_attribute:
  assumes "list_all well_formed cs"
  shows "walk_path (element_tree as cs) [''<xmlattr>'', n]
    = map_option (\<lambda>v. Ptree v []) (map_of as n)"
proof (cases "as = []")
  case True
  have "map_of (concat (map entries cs)) ''<xmlattr>'' = None"
    using assms by (rule entries_no_key) (simp_all add: xmlcomment_def xml_name_def)
  with True show ?thesis
    by (simp add: children_element_tree attr_nodes_def)
next
  case False
  then show ?thesis
    by (simp add: children_element_tree attr_nodes_def xmlattr_def map_of_attr_nodes
        split: option.splits)
qed

lemma get_optional_attribute:
  assumes "list_all well_formed cs" and "fragments p = [''<xmlattr>'', n]"
  shows "get_optional tr (element_tree as cs) p = Option.bind (map_of as n) tr"
  using walk_attribute [OF assms(1), of as n] assms(2)
  by (simp add: get_optional_def get_child_optional_def split: option.splits)

lemma get_attribute:
  assumes "list_all well_formed cs" and "fragments p = [''<xmlattr>'', n]"
  shows "get tr (element_tree as cs) p =
    (case map_of as n of None \<Rightarrow> Inl (ptree_bad_path p)
     | Some v \<Rightarrow> (case tr v of None \<Rightarrow> Inl (ptree_bad_data p) | Some x \<Rightarrow> Inr x))"
  using walk_attribute [OF assms(1), of as n] assms(2)
  by (simp add: get_def get_child_optional_def split: option.splits)

lemma keyed_simps [simp]:
  "keyed k [] = []"
  "keyed k (v # vs) = (if fst v = k then snd v # keyed k vs else keyed k vs)"
  "keyed k (vs @ ws) = keyed k vs @ keyed k ws"
  by (simp_all add: keyed_def)

lemma keyed_entries:
  "k \<noteq> xmlcomment \<Longrightarrow>
    keyed k (concat (map entries cs)) = map tree_of (filter (element_tagged k) cs)"
proof (induction cs)
  case Nil
  show ?case by simp
next
  case (Cons c cs)
  then show ?case by (cases c) auto
qed

lemma keyed_children:
  assumes "k \<noteq> xmlattr" and "k \<noteq> xmlcomment"
  shows "keyed k (children (element_tree as cs)) = map tree_of (filter (element_tagged k) cs)"
  using assms by (simp add: children_element_tree keyed_entries attr_nodes_def)

lemma keyed_children_tree_of:
  assumes "k \<noteq> xmlattr" and "k \<noteq> xmlcomment"
  shows "keyed k (children (tree_of c)) = map tree_of (filter (element_tagged k) (child_nodes c))"
  using assms by (cases c) (simp_all add: keyed_children)

lemma keyed_inner:
  assumes "k \<noteq> xmlattr" and "k \<noteq> xmlcomment" and "s \<noteq> xmlattr" and "s \<noteq> xmlcomment"
  shows "concat (map (\<lambda>t. keyed k (children t)) (keyed s (children (element_tree as cs))))
    = map tree_of (inner_elements s k cs)"
  using assms
  by (simp add: keyed_children keyed_children_tree_of inner_elements_def map_concat comp_def)

lemma bind_to_string: "Option.bind x to_string = x"
  by (cases x) (simp_all add: to_string_def)

section \<open>The minimal Co-Simulation document\<close>

text \<open>
  C7. The document of Scenario A (white space between two tags is no node of the tree),
  \<^verbatim>\<open><fmiModelDescription fmiVersion="2.0" modelName="M" guid="{g}">\<close>
  \<^verbatim>\<open><CoSimulation modelIdentifier="m"/> <ModelVariables/> <ModelStructure/>\<close>
  \<^verbatim>\<open></fmiModelDescription>\<close>,
  parses to the description with guid \<^verbatim>\<open>{g}\<close>, version \<^verbatim>\<open>2.0\<close>, model name
  \<^verbatim>\<open>M\<close>, the naming convention \<^verbatim>\<open>flat\<close>, a Co-Simulation record whose
  booleans are all false and whose \<^verbatim>\<open>maxOutputDerivativeOrder\<close> is 0, no Model
  Exchange record, an empty list of variables and a structure of three empty lists.
\<close>

theorem scenario_A_minimal_cosimulation:
  "parseModelDescription X
     [Element ''fmiModelDescription''
        [(''fmiVersion'', ''2.0''), (''modelName'', ''M''), (''guid'', ''{g}'')]
        [Element ''CoSimulation'' [(''modelIdentifier'', ''m'')] [],
         Element ''ModelVariables'' [] [],
         Element ''ModelStructure'' [] []]]
   = Inr \<lparr>ModelDescription.base =
            \<lparr>guid = ''{g}'', fmiVersion = ''2.0'', modelName = ''M'',
             description = [], author = [], version = [], license = [], copyright = [],
             generationTool = [], generationDateAndTime = [],
             numberOfEventIndicators = 0, variableNamingConvention = ''flat'',
             modelVariables = Some \<lparr>variables = []\<rparr>,
             modelStructure =
               Some \<lparr>outputs = [], derivatives = [], initialUnknowns = []\<rparr>,
             defaultExperiment = None\<rparr>,
          coSimulation =
            Some \<lparr>modelIdentifier = ''m'', needsExecutionTool = False,
                  canGetAndSetFMUstate = False, canSerializeFMUstate = False,
                  providesDirectionalDerivative = False,
                  canNotUseMemoryManagementFunctions = False,
                  canBeInstantiatedOnlyOncePerProcess = False, sourceFiles = [],
                  maxOutputDerivativeOrder = 0, canInterpolateInputs = False,
                  canRunAsynchronuously = False,
                  canHandleVariableCommunicationStepSize = False\<rparr>,
          modelExchange = None\<rparr>"
  by (simp add: parser_defs tree_defs get_defs translator_defs)

section \<open>The capability flags of an FMU\<close>

text \<open>
  A tag of a well-formed document holds no \<^verbatim>\<open>>\<close>, so no child of the tree of an
  element has the key \<^verbatim>\<open>xmlattr>\<close>, and a path that starts with this key leads
  nowhere. The six flags that \<^verbatim>\<open>parseFmuAttributes\<close> reads through such paths
  are false in the attributes of every element of every well-formed document.
\<close>

lemma path_without_bracket:
  assumes "list_all well_formed cs" and "fragments p \<noteq> [] \<and> hd (fragments p) = ''xmlattr>''"
  shows "get_default tr (element_tree as cs) p d = d"
proof -
  from assms(2) obtain ks where p: "fragments p = ''xmlattr>'' # ks"
    by (cases "fragments p") auto
  have "map_of (concat (map entries cs)) ''xmlattr>'' = None"
    using assms(1) by (rule entries_no_key) (simp_all add: xmlcomment_def xml_name_def)
  then have "map_of (children (element_tree as cs)) ''xmlattr>'' = None"
    by (simp add: children_element_tree attr_nodes_def xmlattr_def map_add_def)
  with p show ?thesis
    by (simp add: get_default_def get_optional_def get_child_optional_def)
qed

lemma capability_flags_false:
  assumes "list_all well_formed cs" and "parseFmuAttributes (element_tree as cs) = Inr a"
  shows "\<not> needsExecutionTool a \<and> \<not> canGetAndSetFMUstate a \<and> \<not> canSerializeFMUstate a
    \<and> \<not> providesDirectionalDerivative a \<and> \<not> canNotUseMemoryManagementFunctions a
    \<and> \<not> canBeInstantiatedOnlyOncePerProcess a"
  using assms(2)
  by (auto simp: parseFmuAttributes_def bindE_def path_without_bracket [OF assms(1)]
      split: sum.splits)

text \<open>
  C1. A \<^verbatim>\<open><CoSimulation>\<close> or \<^verbatim>\<open><ModelExchange>\<close> element that sets the
  six capability attributes to \<^verbatim>\<open>true\<close> should parse to attributes whose six
  booleans are true. The paths of the six reads lack the opening \<^verbatim>\<open><\<close> of
  \<^verbatim>\<open><xmlattr>\<close>, so each flag is the default \<^verbatim>\<open>false\<close>; the flags that
  \<^verbatim>\<open>parseCoSimulationAttributes\<close> and \<^verbatim>\<open>parseModelExchangeAttributes\<close> read
  through the right path on the same elements are true.
\<close>

theorem capability_flags_read_false:
  "parseCoSimulationAttributes
     (element_tree
        [(''modelIdentifier'', ''m''), (''needsExecutionTool'', ''true''),
         (''canGetAndSetFMUstate'', ''true''), (''canSerializeFMUstate'', ''true''),
         (''providesDirectionalDerivative'', ''true''),
         (''canNotUseMemoryManagementFunctions'', ''true''),
         (''canBeInstantiatedOnlyOncePerProcess'', ''true''),
         (''canInterpolateInputs'', ''true''), (''canRunAsynchronuously'', ''true''),
         (''canHandleVariableCommunicationStepSize'', ''true'')] [])
   = Inr \<lparr>modelIdentifier = ''m'', needsExecutionTool = False,
          canGetAndSetFMUstate = False, canSerializeFMUstate = False,
          providesDirectionalDerivative = False,
          canNotUseMemoryManagementFunctions = False,
          canBeInstantiatedOnlyOncePerProcess = False, sourceFiles = [],
          maxOutputDerivativeOrder = 0, canInterpolateInputs = True,
          canRunAsynchronuously = True,
          canHandleVariableCommunicationStepSize = True\<rparr>
   \<and> parseModelExchangeAttributes
     (element_tree
        [(''modelIdentifier'', ''m''), (''needsExecutionTool'', ''true''),
         (''canGetAndSetFMUstate'', ''true''), (''canSerializeFMUstate'', ''true''),
         (''providesDirectionalDerivative'', ''true''),
         (''canNotUseMemoryManagementFunctions'', ''true''),
         (''canBeInstantiatedOnlyOncePerProcess'', ''true''),
         (''completedIntegratorStepNotNeeded'', ''true'')] [])
   = Inr \<lparr>modelIdentifier = ''m'', needsExecutionTool = False,
          canGetAndSetFMUstate = False, canSerializeFMUstate = False,
          providesDirectionalDerivative = False,
          canNotUseMemoryManagementFunctions = False,
          canBeInstantiatedOnlyOncePerProcess = False, sourceFiles = [],
          completedIntegratorStepNotNeeded = True\<rparr>"
  by (simp add: parser_defs tree_defs get_defs translator_defs)

section \<open>The attributes of a scalar variable\<close>

text \<open>
  C2. A \<^verbatim>\<open><ScalarVariable>\<close> that carries
  \<^verbatim>\<open>canHandleMultipleSetPerTimeInstant="true"\<close>, the name of FMI 2.0 with a capital
  I, should parse to a base whose flag is true. The parser reads the attribute under a
  name with a lower-case l in that place, so the flag of this element is the default
  \<^verbatim>\<open>false\<close>.
\<close>

theorem canonical_spelling_not_read:
  "parseScalarVariable X
     (element_tree
        [(''name'', ''x''), (''valueReference'', ''1''),
         (''canHandleMultipleSetPerTimeInstant'', ''true'')]
        [Element ''Real'' [] []])
   = Inr \<lparr>ScalarVariable.base =
            \<lparr>ScalarVariableBase.name = ''x'', description = [], valueReference = 1,
             canHandleMultipleSetPerTimelnstant = False,
             causality = parseCausality X [], variability = parseVariability X [],
             initial = parseInitial X []\<rparr>,
          attribute =
            RealVariable
              \<lparr>start = None, declaredType = None, min_value = None, max_value = None,
               quantity = None, nominal = None, unit = None, derivative = None,
               reinit = False, unbounded = False, relativeQuantity = False\<rparr>\<rparr>"
  by (simp add: parser_defs tree_defs get_defs translator_defs type_defs)

section \<open>The dependencies of an unknown\<close>

lemma parseUnknownDependencies_example:
  "parseUnknownDependencies ''1,2 3,4'' [] = [1, 2, 3, 4]"
  by (simp add: parseUnknownDependencies.simps translator_defs)

lemma parseUnknownDependencies_empty: "parseUnknownDependencies [] [] = []"
  by (simp add: parseUnknownDependencies.simps translator_defs)

text \<open>
  C3. When an \<^verbatim>\<open><Unknown>\<close> element parses, its \<^verbatim>\<open>dependencies\<close> are:
  the list \<open>[1, 2, 3, 4]\<close> when the attribute is \<^verbatim>\<open>"1,2 3,4"\<close>; a present, empty
  list when the attribute is the empty string; absent when the element has no such
  attribute.
\<close>

theorem unknown_dependencies:
  assumes "list_all well_formed cs" and "parseUnknown (element_tree as cs) = Inr u"
  shows "(map_of as ''dependencies'' = Some ''1,2 3,4'' \<longrightarrow> dependencies u = Some [1, 2, 3, 4])
       \<and> (map_of as ''dependencies'' = Some [] \<longrightarrow> dependencies u = Some [])
       \<and> (map_of as ''dependencies'' = None \<longrightarrow> dependencies u = None)"
proof -
  have "get_optional to_string (element_tree as cs) ''<xmlattr>.dependencies''
      = map_of as ''dependencies''"
    using assms(1) by (subst get_optional_attribute [where n = "''dependencies''"])
      (simp_all add: bind_to_string)
  then have "dependencies u
      = map_option (\<lambda>s. parseUnknownDependencies s []) (map_of as ''dependencies'')"
    using assms(2)
    by (auto simp: parseUnknown_def bindE_def split: sum.splits option.splits)
  then show ?thesis
    by (simp add: parseUnknownDependencies_example parseUnknownDependencies_empty)
qed

theorem unknown_dependencies_witness:
  "parseUnknown (element_tree [(''index'', ''3''), (''dependencies'', ''1,2 3,4'')] [])
     = Inr \<lparr>index = 3, dependencies = Some [1, 2, 3, 4], dependenciesKind = None\<rparr>
   \<and> map_of [(''index'', ''3''), (''dependencies'', ''1,2 3,4'')] ''dependencies''
     = Some ''1,2 3,4''
   \<and> dependencies \<lparr>index = 3, dependencies = Some [1, 2, 3, 4], dependenciesKind = None\<rparr>
     = Some [1, 2, 3, 4]
   \<and> parseUnknown (element_tree [(''index'', ''3''), (''dependencies'', [])] [])
     = Inr \<lparr>index = 3, dependencies = Some [], dependenciesKind = None\<rparr>
   \<and> map_of [(''index'', ''3''), (''dependencies'', [])] ''dependencies'' = Some []
   \<and> parseUnknown (element_tree [(''index'', ''3'')] [])
     = Inr \<lparr>index = 3, dependencies = None, dependenciesKind = None\<rparr>
   \<and> map_of [(''index'', ''3'')] ''dependencies'' = (None :: string option)"
  using
    unknown_dependencies [of "[]" "[(''index'', ''3''), (''dependencies'', ''1,2 3,4'')]"
      "\<lparr>index = 3, dependencies = Some [1, 2, 3, 4], dependenciesKind = None\<rparr>"]
    unknown_dependencies [of "[]" "[(''index'', ''3''), (''dependencies'', [])]"
      "\<lparr>index = 3, dependencies = Some [], dependenciesKind = None\<rparr>"]
    unknown_dependencies [of "[]" "[(''index'', ''3'')]"
      "\<lparr>index = 3, dependencies = None, dependenciesKind = None\<rparr>"]
  by (simp add: parser_defs tree_defs get_defs translator_defs parseUnknownDependencies.simps)

section \<open>The kinds of the dependencies of an unknown\<close>

lemma split_not_Nil: "split P s \<noteq> []"
  by (induction s) (auto split: list.splits)

lemma join_Cons_Cons: "join ((c # t) # ts) = c # join (t # ts)"
  by (cases ts) simp_all

lemma join_split: "join (split (\<lambda>c. c = CHR '' '') s) = s"
proof (induction s)
  case Nil
  show ?case by simp
next
  case (Cons c cs)
  obtain t ts where ts: "split (\<lambda>c. c = CHR '' '') cs = t # ts"
    using split_not_Nil [of "\<lambda>c. c = CHR '' ''" cs] by (cases "split (\<lambda>c. c = CHR '' '') cs") auto
  show ?case
    using Cons ts by (simp add: join_Cons_Cons)
qed

lemma split_tokens: "\<forall>t \<in> set (split P s). \<forall>c \<in> set t. \<not> P c"
  by (induction s) (auto split: list.splits)

lemma split_cong_set: "(\<And>c. c \<in> set s \<Longrightarrow> P c = Q c) \<Longrightarrow> split P s = split Q s"
  by (induction s) auto

text \<open>
  C4, as the code has it. \<^verbatim>\<open>parseUnknownDependenciesKind\<close> cuts the string at
  every single space and keeps the empty pieces: the list is never empty, its tokens
  joined by single spaces give the string back, and no token holds a space. When the
  string has no white space but spaces, dropping the empty tokens gives the list that
  splitting on runs of white space gives.
\<close>

theorem dependenciesKind_split_at_single_spaces:
  "parseUnknownDependenciesKind str store \<noteq> []
   \<and> join (parseUnknownDependenciesKind str store) = str
   \<and> (\<forall>t \<in> set (parseUnknownDependenciesKind str store). CHR '' '' \<notin> set t)
   \<and> ((\<forall>c \<in> set str. isspace c \<longrightarrow> c = CHR '' '')
        \<longrightarrow> filter (\<lambda>t. t \<noteq> []) (parseUnknownDependenciesKind str store)
            = split_on_whitespace_runs str)"
proof (intro conjI impI)
  show "parseUnknownDependenciesKind str store \<noteq> []"
    by (simp add: parseUnknownDependenciesKind_def split_not_Nil)
  show "join (parseUnknownDependenciesKind str store) = str"
    by (simp add: parseUnknownDependenciesKind_def join_split)
  show "\<forall>t \<in> set (parseUnknownDependenciesKind str store). CHR '' '' \<notin> set t"
    unfolding parseUnknownDependenciesKind_def
    using split_tokens [of "\<lambda>c. c = CHR '' ''" str] by blast
next
  assume spaces: "\<forall>c \<in> set str. isspace c \<longrightarrow> c = CHR '' ''"
  have "split (\<lambda>c. c = CHR '' '') str = split isspace str"
  proof (rule split_cong_set)
    fix c assume "c \<in> set str"
    with spaces show "(c = CHR '' '') = isspace c"
      by (auto simp: isspace_def)
  qed
  then show "filter (\<lambda>t. t \<noteq> []) (parseUnknownDependenciesKind str store)
      = split_on_whitespace_runs str"
    by (simp add: parseUnknownDependenciesKind_def split_on_whitespace_runs_def)
qed

theorem dependenciesKind_split_at_single_spaces_witness:
  "parseUnknownDependenciesKind ''fixed  tunable'' [] = [''fixed'', [], ''tunable'']
   \<and> join [''fixed'', [], ''tunable''] = ''fixed  tunable''
   \<and> split_on_whitespace_runs ''fixed  tunable'' = [''fixed'', ''tunable'']"
  using dependenciesKind_split_at_single_spaces [of "''fixed  tunable''" "[]"]
  by (simp add: parseUnknownDependenciesKind_def split_on_whitespace_runs_def isspace_def)

text \<open>
  C4, as the specification states it, fails on the empty string: the parsed list is the
  list of one empty token, where splitting on runs of white space gives the empty list.
\<close>

theorem dependenciesKind_empty_string_counterexample:
  "parseUnknown (element_tree [(''index'', ''1''), (''dependenciesKind'', [])] [])
     = Inr \<lparr>index = 1, dependencies = None, dependenciesKind = Some [[]]\<rparr>
   \<and> split_on_whitespace_runs [] = []
   \<and> parseUnknownDependenciesKind [] [] \<noteq> split_on_whitespace_runs []
   \<and> [] \<in> set (parseUnknownDependenciesKind [] [])"
  by (simp add: parser_defs tree_defs get_defs translator_defs split_on_whitespace_runs_def)

section \<open>Sections with the same tag\<close>

lemma parseSourceFiles_loop_Inr:
  "parseSourceFiles_loop vs files = Inr r \<Longrightarrow>
     map Inr r = map Inr files @ map parseFile (keyed ''File'' vs)"
proof (induction vs arbitrary: files)
  case Nil
  then show ?case by simp
next
  case (Cons v vs)
  show ?case
  proof (cases "fst v = ''File''")
    case True
    with Cons.prems obtain f where pf: "parseFile (snd v) = Inr f"
      and rest: "parseSourceFiles_loop vs (files @ [f]) = Inr r"
      by (auto simp: bindE_def split: sum.splits)
    from Cons.IH [OF rest] True pf show ?thesis by simp
  next
    case False
    with Cons show ?thesis by simp
  qed
qed

lemma parseSourceFiles_loop_succeeds:
  "list_all (\<lambda>t. \<exists>file. parseFile t = Inr file) (keyed ''File'' vs) \<Longrightarrow>
     \<exists>r. parseSourceFiles_loop vs files = Inr r"
  by (induction vs arbitrary: files) (auto simp: bindE_def)

lemma parseFmuAttributes_loop_Inr:
  "parseFmuAttributes_loop vs files = Inr r \<Longrightarrow>
     map Inr r = map Inr files
       @ map parseFile (concat (map (\<lambda>t. keyed ''File'' (children t)) (keyed ''SourceFiles'' vs)))"
proof (induction vs arbitrary: files)
  case Nil
  then show ?case by simp
next
  case (Cons v vs)
  show ?case
  proof (cases "fst v = ''SourceFiles''")
    case True
    with Cons.prems obtain files' where
      inner: "parseSourceFiles_loop (children (snd v)) files = Inr files'"
      and rest: "parseFmuAttributes_loop vs files' = Inr r"
      by (auto simp: bindE_def parseSourceFiles_def split: sum.splits)
    from Cons.IH [OF rest] parseSourceFiles_loop_Inr [OF inner] True show ?thesis by simp
  next
    case False
    with Cons show ?thesis by simp
  qed
qed

lemma parseFmuAttributes_loop_succeeds:
  "list_all (\<lambda>t. \<exists>file. parseFile t = Inr file)
     (concat (map (\<lambda>t. keyed ''File'' (children t)) (keyed ''SourceFiles'' vs))) \<Longrightarrow>
     \<exists>r. parseFmuAttributes_loop vs files = Inr r"
proof (induction vs arbitrary: files)
  case Nil
  then show ?case by simp
next
  case (Cons v vs)
  show ?case
  proof (cases "fst v = ''SourceFiles''")
    case True
    with Cons.prems obtain files' where
      "parseSourceFiles_loop (children (snd v)) files = Inr files'"
      using parseSourceFiles_loop_succeeds [of "children (snd v)" files] by auto
    moreover obtain r where "parseFmuAttributes_loop vs files' = Inr r"
      using Cons.IH [of files'] Cons.prems True by auto
    ultimately show ?thesis
      using True by (simp add: bindE_def parseSourceFiles_def)
  next
    case False
    with Cons show ?thesis by simp
  qed
qed

lemma loadUnknowns_loop_Inr:
  "loadUnknowns_loop vs vector = Inr r \<Longrightarrow>
     map Inr r = map Inr vector @ map parseUnknown (keyed ''Unknown'' vs)"
proof (induction vs arbitrary: vector)
  case Nil
  then show ?case by simp
next
  case (Cons v vs)
  show ?case
  proof (cases "fst v = ''Unknown''")
    case True
    with Cons.prems obtain u where u: "parseUnknown (snd v) = Inr u"
      and rest: "loadUnknowns_loop vs (vector @ [u]) = Inr r"
      by (auto simp: bindE_def split: sum.splits)
    from Cons.IH [OF rest] True u show ?thesis by simp
  next
    case False
    with Cons show ?thesis by simp
  qed
qed

lemma loadUnknowns_loop_succeeds:
  "list_all (\<lambda>t. \<exists>u. parseUnknown t = Inr u) (keyed ''Unknown'' vs) \<Longrightarrow>
     \<exists>r. loadUnknowns_loop vs vector = Inr r"
  by (induction vs arbitrary: vector) (auto simp: bindE_def)

lemma unknowns_in_simps [simp]:
  "unknowns_in s [] = []"
  "unknowns_in s (v # vs) =
     (if fst v = s then keyed ''Unknown'' (children (snd v)) @ unknowns_in s vs
      else unknowns_in s vs)"
  by (simp_all add: unknowns_in_def)

lemma parseModelStructure_loop_Inr:
  "parseModelStructure_loop vs ms = Inr ms' \<Longrightarrow>
     map Inr (outputs ms')
       = map Inr (outputs ms) @ map parseUnknown (unknowns_in ''Outputs'' vs)
     \<and> map Inr (derivatives ms')
       = map Inr (derivatives ms) @ map parseUnknown (unknowns_in ''Derivatives'' vs)
     \<and> map Inr (initialUnknowns ms')
       = map Inr (initialUnknowns ms) @ map parseUnknown (unknowns_in ''InitialUnknowns'' vs)"
proof (induction vs arbitrary: ms)
  case Nil
  then show ?case by simp
next
  case (Cons v vs)
  consider (out) "fst v = ''Outputs''" | (der) "fst v = ''Derivatives''"
    | (ini) "fst v = ''InitialUnknowns''"
    | (other) "fst v \<noteq> ''Outputs''" "fst v \<noteq> ''Derivatives''" "fst v \<noteq> ''InitialUnknowns''"
    by blast
  then show ?case
  proof cases
    case out
    with Cons.prems obtain us where
      inner: "loadUnknowns_loop (children (snd v)) (outputs ms) = Inr us"
      and rest: "parseModelStructure_loop vs (ms\<lparr>outputs := us\<rparr>) = Inr ms'"
      by (auto simp: bindE_def loadUnknowns_def split: sum.splits)
    from Cons.IH [OF rest] loadUnknowns_loop_Inr [OF inner] out show ?thesis by simp
  next
    case der
    with Cons.prems obtain us where
      inner: "loadUnknowns_loop (children (snd v)) (derivatives ms) = Inr us"
      and rest: "parseModelStructure_loop vs (ms\<lparr>derivatives := us\<rparr>) = Inr ms'"
      by (auto simp: bindE_def loadUnknowns_def split: sum.splits)
    from Cons.IH [OF rest] loadUnknowns_loop_Inr [OF inner] der show ?thesis by simp
  next
    case ini
    with Cons.prems obtain us where
      inner: "loadUnknowns_loop (children (snd v)) (initialUnknowns ms) = Inr us"
      and rest: "parseModelStructure_loop vs (ms\<lparr>initialUnknowns := us\<rparr>) = Inr ms'"
      by (auto simp: bindE_def loadUnknowns_def split: sum.splits)
    from Cons.IH [OF rest] loadUnknowns_loop_Inr [OF inner] ini show ?thesis by simp
  next
    case other
    with Cons show ?thesis by simp
  qed
qed

lemma parseModelStructure_loop_succeeds:
  "list_all (\<lambda>t. \<exists>u. parseUnknown t = Inr u)
     (unknowns_in ''Outputs'' vs @ unknowns_in ''Derivatives'' vs
        @ unknowns_in ''InitialUnknowns'' vs) \<Longrightarrow>
     \<exists>r. parseModelStructure_loop vs ms = Inr r"
proof (induction vs arbitrary: ms)
  case Nil
  then show ?case by simp
next
  case (Cons v vs)
  have rest: "\<exists>r. parseModelStructure_loop vs ms1 = Inr r" for ms1
    using Cons.prems by (intro Cons.IH) (auto split: if_splits)
  have inner: "\<exists>us. loadUnknowns (snd v) vector = Inr us"
    if "fst v = ''Outputs'' \<or> fst v = ''Derivatives'' \<or> fst v = ''InitialUnknowns''"
    for vector
    unfolding loadUnknowns_def
    using that Cons.prems by (intro loadUnknowns_loop_succeeds) (auto split: if_splits)
  consider (out) "fst v = ''Outputs''" | (der) "fst v = ''Derivatives''"
    | (ini) "fst v = ''InitialUnknowns''"
    | (other) "fst v \<noteq> ''Outputs''" "fst v \<noteq> ''Derivatives''" "fst v \<noteq> ''InitialUnknowns''"
    by blast
  then show ?case
  proof cases
    case out
    obtain us where "loadUnknowns (snd v) (outputs ms) = Inr us"
      using inner out by blast
    with out rest show ?thesis by (simp add: bindE_def)
  next
    case der
    obtain us where "loadUnknowns (snd v) (derivatives ms) = Inr us"
      using inner der by blast
    with der rest show ?thesis by (simp add: bindE_def)
  next
    case ini
    obtain us where "loadUnknowns (snd v) (initialUnknowns ms) = Inr us"
      using inner ini by blast
    with ini rest show ?thesis by (simp add: bindE_def)
  next
    case other
    with rest show ?thesis by simp
  qed
qed

lemma unknowns_in_element:
  assumes "s \<noteq> xmlattr" and "s \<noteq> xmlcomment"
  shows "unknowns_in s (children (element_tree as cs))
    = map tree_of (inner_elements s ''Unknown'' cs)"
  unfolding unknowns_in_def using assms
  by (intro keyed_inner) (simp_all add: xmlattr_def xmlcomment_def)

text \<open>
  C10. When a \<^verbatim>\<open><ModelStructure>\<close> element parses, its outputs are the parsed
  \<^verbatim>\<open><Unknown>\<close> elements of all its \<^verbatim>\<open><Outputs>\<close> sections, in document
  order, and likewise its derivatives and its initial unknowns; it parses whenever each
  of these unknowns does, however many sections there are. When the attributes of an
  FMU parse, the source files are the parsed \<^verbatim>\<open><File>\<close> elements of all the
  \<^verbatim>\<open><SourceFiles>\<close> sections, in document order; they parse whenever the element
  has a model identifier and each of these files parses.
\<close>

theorem same_tagged_sections_appended:
  "(parseModelStructure (element_tree as cs) = Inr ms \<longrightarrow>
      map Inr (outputs ms)
        = map (\<lambda>c. parseUnknown (tree_of c)) (inner_elements ''Outputs'' ''Unknown'' cs)
      \<and> map Inr (derivatives ms)
        = map (\<lambda>c. parseUnknown (tree_of c)) (inner_elements ''Derivatives'' ''Unknown'' cs)
      \<and> map Inr (initialUnknowns ms)
        = map (\<lambda>c. parseUnknown (tree_of c))
            (inner_elements ''InitialUnknowns'' ''Unknown'' cs))
   \<and> (list_all (\<lambda>c. \<exists>u. parseUnknown (tree_of c) = Inr u)
         (inner_elements ''Outputs'' ''Unknown'' cs
            @ inner_elements ''Derivatives'' ''Unknown'' cs
            @ inner_elements ''InitialUnknowns'' ''Unknown'' cs) \<longrightarrow>
       (\<exists>ms. parseModelStructure (element_tree as cs) = Inr ms))
   \<and> (parseFmuAttributes (element_tree as cs) = Inr a \<longrightarrow>
       map Inr (sourceFiles a)
         = map (\<lambda>c. parseFile (tree_of c)) (inner_elements ''SourceFiles'' ''File'' cs))
   \<and> ((\<exists>i. get to_string (element_tree as cs) ''<xmlattr>.modelIdentifier'' = Inr i)
        \<and> list_all (\<lambda>c. \<exists>f. parseFile (tree_of c) = Inr f)
            (inner_elements ''SourceFiles'' ''File'' cs) \<longrightarrow>
       (\<exists>a. parseFmuAttributes (element_tree as cs) = Inr a))"
proof -
  let ?node = "element_tree as cs"
  have unknowns: "unknowns_in s (children ?node) = map tree_of (inner_elements s ''Unknown'' cs)"
    if "s \<in> {''Outputs'', ''Derivatives'', ''InitialUnknowns''}" for s
    using that by (intro unknowns_in_element) (auto simp: xmlattr_def xmlcomment_def)
  have files: "concat (map (\<lambda>t. keyed ''File'' (children t)) (keyed ''SourceFiles'' (children ?node)))
      = map tree_of (inner_elements ''SourceFiles'' ''File'' cs)"
    by (intro keyed_inner) (simp_all add: xmlattr_def xmlcomment_def)
  have ms_lists: "map Inr (outputs ms)
        = map (\<lambda>c. parseUnknown (tree_of c)) (inner_elements ''Outputs'' ''Unknown'' cs)
      \<and> map Inr (derivatives ms)
        = map (\<lambda>c. parseUnknown (tree_of c)) (inner_elements ''Derivatives'' ''Unknown'' cs)
      \<and> map Inr (initialUnknowns ms)
        = map (\<lambda>c. parseUnknown (tree_of c))
            (inner_elements ''InitialUnknowns'' ''Unknown'' cs)"
    if "parseModelStructure ?node = Inr ms"
    using parseModelStructure_loop_Inr [OF that [unfolded parseModelStructure_def]]
    by (simp add: unknowns comp_def)
  have ms_parses: "\<exists>ms. parseModelStructure ?node = Inr ms"
    if "list_all (\<lambda>c. \<exists>u. parseUnknown (tree_of c) = Inr u)
         (inner_elements ''Outputs'' ''Unknown'' cs
            @ inner_elements ''Derivatives'' ''Unknown'' cs
            @ inner_elements ''InitialUnknowns'' ''Unknown'' cs)"
    unfolding parseModelStructure_def
    using that by (intro parseModelStructure_loop_succeeds) (auto simp: unknowns list_all_iff)
  have fmu_files: "map Inr (sourceFiles a)
         = map (\<lambda>c. parseFile (tree_of c)) (inner_elements ''SourceFiles'' ''File'' cs)"
    if "parseFmuAttributes ?node = Inr a"
  proof -
    from that have "parseFmuAttributes_loop (children ?node) [] = Inr (sourceFiles a)"
      by (auto simp: parseFmuAttributes_def bindE_def split: sum.splits)
    from parseFmuAttributes_loop_Inr [OF this] show ?thesis
      by (simp add: files comp_def)
  qed
  have fmu_parses: "\<exists>a. parseFmuAttributes ?node = Inr a"
    if "\<exists>i. get to_string ?node ''<xmlattr>.modelIdentifier'' = Inr i"
      and "list_all (\<lambda>c. \<exists>f. parseFile (tree_of c) = Inr f)
            (inner_elements ''SourceFiles'' ''File'' cs)"
  proof -
    have "\<exists>r. parseFmuAttributes_loop (children ?node) [] = Inr r"
      using that(2) by (intro parseFmuAttributes_loop_succeeds) (auto simp: files list_all_iff)
    with that(1) show ?thesis
      by (auto simp: parseFmuAttributes_def bindE_def)
  qed
  from ms_lists ms_parses fmu_files fmu_parses show ?thesis
    by blast
qed

theorem same_tagged_sections_appended_witness:
  "parseModelStructure
     (element_tree []
        [Element ''Outputs'' [] [Element ''Unknown'' [(''index'', ''1'')] []],
         Element ''Derivatives'' [] [Element ''Unknown'' [(''index'', ''2'')] []],
         Element ''Outputs'' [] [Element ''Unknown'' [(''index'', ''3'')] []]])
   = Inr \<lparr>outputs =
            [\<lparr>index = 1, dependencies = None, dependenciesKind = None\<rparr>,
             \<lparr>index = 3, dependencies = None, dependenciesKind = None\<rparr>],
          derivatives = [\<lparr>index = 2, dependencies = None, dependenciesKind = None\<rparr>],
          initialUnknowns = []\<rparr>
   \<and> parseFmuAttributes
     (element_tree [(''modelIdentifier'', ''m'')]
        [Element ''SourceFiles'' [] [Element ''File'' [(''name'', ''a.c'')] []],
         Element ''SourceFiles'' [] [Element ''File'' [(''name'', ''b.c'')] []]])
   = Inr \<lparr>modelIdentifier = ''m'', needsExecutionTool = False,
          canGetAndSetFMUstate = False, canSerializeFMUstate = False,
          providesDirectionalDerivative = False,
          canNotUseMemoryManagementFunctions = False,
          canBeInstantiatedOnlyOncePerProcess = False,
          sourceFiles = [\<lparr>SourceFile.name = ''a.c''\<rparr>, \<lparr>SourceFile.name = ''b.c''\<rparr>]\<rparr>"
  using
    same_tagged_sections_appended [of "[]"
      "[Element ''Outputs'' [] [Element ''Unknown'' [(''index'', ''1'')] []],
        Element ''Derivatives'' [] [Element ''Unknown'' [(''index'', ''2'')] []],
        Element ''Outputs'' [] [Element ''Unknown'' [(''index'', ''3'')] []]]"]
    same_tagged_sections_appended [of "[(''modelIdentifier'', ''m'')]"
      "[Element ''SourceFiles'' [] [Element ''File'' [(''name'', ''a.c'')] []],
        Element ''SourceFiles'' [] [Element ''File'' [(''name'', ''b.c'')] []]]"]
  by (simp add: parser_defs tree_defs get_defs translator_defs)

section \<open>Scalar variables without a type\<close>

lemma parseScalarVariable_loop_untyped:
  "list_all (\<lambda>v. fst v \<notin> set type_names) vs \<Longrightarrow>
     parseScalarVariable_loop X b vs
       = Inl (runtime_error ''FATAL: Failed to parse ScalarVariable!'')"
  by (induction vs) (simp_all add: type_names_def)

lemma untyped_entries:
  "list_all (\<lambda>t. \<not> element_tagged t c) type_names \<Longrightarrow>
     list_all (\<lambda>v. fst v \<notin> set type_names) (entries c)"
  by (cases c) (auto simp: type_names_def type_defs xmlcomment_def)

lemma untyped_children:
  assumes "untyped cs"
  shows "list_all (\<lambda>v. fst v \<notin> set type_names) (children (element_tree as cs))"
proof -
  have "list_all (\<lambda>v. fst v \<notin> set type_names) (attr_nodes as)"
    by (simp add: attr_nodes_def type_names_def type_defs xmlattr_def)
  moreover have "list_all (\<lambda>v. fst v \<notin> set type_names) (concat (map entries cs))"
    using assms untyped_entries by (fastforce simp: untyped_def list_all_iff)
  ultimately show ?thesis
    by (simp add: children_element_tree)
qed

lemma parseScalarVariable_untyped:
  assumes "untyped cs"
  shows "\<exists>e. parseScalarVariable X (element_tree as cs) = Inl e"
  using parseScalarVariable_loop_untyped [OF untyped_children [OF assms]]
  by (auto simp: parseScalarVariable_def bindE_def split: sum.splits)

lemma parseModelVariables_loop_fails:
  "(''ScalarVariable'', t) \<in> set vs \<Longrightarrow> parseScalarVariable X t = Inl e \<Longrightarrow>
     \<exists>e'. parseModelVariables_loop X vs vars = Inl e'"
  by (induction vs arbitrary: vars) (auto simp: bindE_def split: sum.splits)

lemma parseModelDescription_loop_fails:
  "(''ModelVariables'', t) \<in> set vs \<Longrightarrow> parseModelVariables X t = Inl e \<Longrightarrow>
     \<exists>e'. parseModelDescription_loop X vs md = Inl e'"
  by (induction vs arbitrary: md) (auto simp: bindE_def split: sum.splits)

lemma element_entry:
  "Element t as cs \<in> set xs \<Longrightarrow> (t, element_tree as cs) \<in> set (children (element_tree as' xs))"
  by (force simp: children_element_tree)

text \<open>
  C5, as the code has it. A \<^verbatim>\<open><ScalarVariable>\<close> element none of whose
  children is tagged \<^verbatim>\<open>Integer\<close>, \<^verbatim>\<open>Real\<close>, \<^verbatim>\<open>String\<close>,
  \<^verbatim>\<open>Boolean\<close> or \<^verbatim>\<open>Enumeration\<close> does not parse. When it carries a name and
  a value reference that is an unsigned number, the error is the runtime error with the
  fixed message \<^verbatim>\<open>FATAL: Failed to parse ScalarVariable!\<close>. A document whose root
  has a \<^verbatim>\<open><ModelVariables>\<close> child with such a variable yields no model
  description.
\<close>

theorem scalar_variable_without_type_fails:
  assumes "untyped cs"
  shows "(\<exists>e. parseScalarVariable X (element_tree as cs) = Inl e)
    \<and> (list_all well_formed cs \<and> map_of as ''name'' \<noteq> None
         \<and> (\<exists>v r. map_of as ''valueReference'' = Some v \<and> to_unsigned v = Some r) \<longrightarrow>
       parseScalarVariable X (element_tree as cs)
         = Inl (runtime_error ''FATAL: Failed to parse ScalarVariable!''))
    \<and> (Element ''ScalarVariable'' as cs \<in> set vars
         \<and> Element ''ModelVariables'' as' vars \<in> set nodes \<longrightarrow>
       (\<exists>e. parseModelDescription X [Element ''fmiModelDescription'' as'' nodes] = Inl e))"
proof (intro conjI impI)
  show fails: "\<exists>e. parseScalarVariable X (element_tree as cs) = Inl e"
    using assms by (rule parseScalarVariable_untyped)
  {
    assume attrs: "list_all well_formed cs \<and> map_of as ''name'' \<noteq> None
         \<and> (\<exists>v r. map_of as ''valueReference'' = Some v \<and> to_unsigned v = Some r)"
    then obtain n v r where n: "map_of as ''name'' = Some n"
      and v: "map_of as ''valueReference'' = Some v" and r: "to_unsigned v = Some r"
      by auto
    have "get to_string (element_tree as cs) ''<xmlattr>.name'' = Inr n"
      using attrs n by (subst get_attribute [where n = "''name''"]) (simp_all add: to_string_def)
    moreover have "get to_unsigned (element_tree as cs) ''<xmlattr>.valueReference'' = Inr r"
      using attrs v r by (subst get_attribute [where n = "''valueReference''"]) simp_all
    ultimately show "parseScalarVariable X (element_tree as cs)
         = Inl (runtime_error ''FATAL: Failed to parse ScalarVariable!'')"
      using parseScalarVariable_loop_untyped [OF untyped_children [OF assms]]
      by (simp add: parseScalarVariable_def bindE_def)
  }
  {
    assume "Element ''ScalarVariable'' as cs \<in> set vars
         \<and> Element ''ModelVariables'' as' vars \<in> set nodes"
    then have sv: "(''ScalarVariable'', element_tree as cs) \<in> set (children (element_tree as' vars))"
      and mv: "(''ModelVariables'', element_tree as' vars) \<in> set (children (element_tree as'' nodes))"
      by (simp_all add: element_entry)
    from fails obtain e where "parseScalarVariable X (element_tree as cs) = Inl e" ..
    from parseModelVariables_loop_fails [OF sv this, of "[]"]
    obtain e' where "parseModelVariables X (element_tree as' vars) = Inl e'"
      by (auto simp: parseModelVariables_def bindE_def)
    from parseModelDescription_loop_fails [OF mv this]
    show "\<exists>e. parseModelDescription X [Element ''fmiModelDescription'' as'' nodes] = Inl e"
      by (auto simp: parseModelDescription_def read_xml_single parseModelDescription_tree_def
          get_child_optional_def bindE_def split: sum.splits)
  }
qed

theorem scalar_variable_without_type_fails_witness:
  "\<forall>X. untyped [Element ''Annotations'' [] []]
     \<and> parseScalarVariable X
         (element_tree [(''name'', ''x''), (''valueReference'', ''1'')]
            [Element ''Annotations'' [] []])
       = Inl (runtime_error ''FATAL: Failed to parse ScalarVariable!'')
     \<and> (\<exists>e. parseModelDescription X
          [Element ''fmiModelDescription''
             [(''fmiVersion'', ''2.0''), (''modelName'', ''M''), (''guid'', ''{g}'')]
             [Element ''ModelVariables'' []
                [Element ''ScalarVariable'' [(''name'', ''x''), (''valueReference'', ''1'')]
                   [Element ''Annotations'' [] []]]]] = Inl e)"
proof
  fix X
  have u: "untyped [Element ''Annotations'' [] []]"
    by (simp add: untyped_def type_names_def type_defs)
  have a: "list_all well_formed [Element ''Annotations'' [] []]
      \<and> map_of [(''name'', ''x''), (''valueReference'', ''1'')] ''name'' \<noteq> None
      \<and> (\<exists>v r. map_of [(''name'', ''x''), (''valueReference'', ''1'')] ''valueReference'' = Some v
            \<and> to_unsigned v = Some r)"
    by (simp add: xml_name_def translator_defs)
  from scalar_variable_without_type_fails [OF u, of X
      "[(''name'', ''x''), (''valueReference'', ''1'')]"
      "[Element ''ScalarVariable'' [(''name'', ''x''), (''valueReference'', ''1'')]
          [Element ''Annotations'' [] []]]" "[]"
      "[Element ''ModelVariables'' []
          [Element ''ScalarVariable'' [(''name'', ''x''), (''valueReference'', ''1'')]
             [Element ''Annotations'' [] []]]]"
      "[(''fmiVersion'', ''2.0''), (''modelName'', ''M''), (''guid'', ''{g}'')]"] u a
  show "untyped [Element ''Annotations'' [] []]
     \<and> parseScalarVariable X
         (element_tree [(''name'', ''x''), (''valueReference'', ''1'')]
            [Element ''Annotations'' [] []])
       = Inl (runtime_error ''FATAL: Failed to parse ScalarVariable!'')
     \<and> (\<exists>e. parseModelDescription X
          [Element ''fmiModelDescription''
             [(''fmiVersion'', ''2.0''), (''modelName'', ''M''), (''guid'', ''{g}'')]
             [Element ''ModelVariables'' []
                [Element ''ScalarVariable'' [(''name'', ''x''), (''valueReference'', ''1'')]
                   [Element ''Annotations'' [] []]]]] = Inl e)"
    by simp
qed

text \<open>
  C5, as the specification states it, asks for an error that carries the name of the
  variable. The error of a variable named \<^verbatim>\<open>x\<close> and that of a variable named
  \<^verbatim>\<open>y\<close> are the same value, and a variable without a name fails on the missing
  attribute instead.
\<close>

theorem error_without_variable_name_counterexample:
  "\<forall>X. parseScalarVariable X (element_tree [(''name'', ''x''), (''valueReference'', ''1'')] [])
       = Inl (runtime_error ''FATAL: Failed to parse ScalarVariable!'')
     \<and> parseScalarVariable X (element_tree [(''name'', ''y''), (''valueReference'', ''1'')] [])
       = Inl (runtime_error ''FATAL: Failed to parse ScalarVariable!'')
     \<and> parseScalarVariable X (element_tree [(''valueReference'', ''1'')] [])
       = Inl (ptree_bad_path ''<xmlattr>.name'')"
  by (simp add: parser_defs tree_defs get_defs translator_defs type_defs)

section \<open>Documents without variables or structure\<close>

lemma get_same_attributes:
  assumes "map_of (children r') ''<xmlattr>'' = map_of (children r) ''<xmlattr>''"
    and "fragments p \<noteq> [] \<and> hd (fragments p) = ''<xmlattr>''"
  shows "get tr r' p = get tr r p"
    and "get_default tr r' p d = get_default tr r p d"
proof -
  from assms(2) obtain ks where "fragments p = ''<xmlattr>'' # ks"
    by (cases "fragments p") auto
  with assms(1) have "get_child_optional r' p = get_child_optional r p"
    by (simp add: get_child_optional_def)
  then show "get tr r' p = get tr r p" and "get_default tr r' p d = get_default tr r p d"
    by (simp_all add: get_def get_default_def get_optional_def)
qed

lemma root_lookup:
  "get_child_optional (Ptree d [(''fmiModelDescription'', r)]) ''fmiModelDescription'' = Some r"
  by (simp add: get_child_optional_def)

lemma parseModelDescription_children:
  assumes attrs: "map_of (children r') ''<xmlattr>'' = map_of (children r) ''<xmlattr>''"
    and errors: "\<And>e. R (Inl e) (Inl e)"
    and loops: "\<And>md0. modelVariables (base md0) = None \<Longrightarrow> modelStructure (base md0) = None \<Longrightarrow>
      R (parseModelDescription_loop X (children r) md0)
        (parseModelDescription_loop X (children r') md0)"
  shows "R (parseModelDescription_tree X (Ptree d [(''fmiModelDescription'', r)]))
           (parseModelDescription_tree X (Ptree d [(''fmiModelDescription'', r')]))"
proof -
  note same = get_same_attributes [OF attrs]
  show ?thesis
  proof (cases "get to_string r ''<xmlattr>.guid''")
    case (Inl e)
    then show ?thesis
      by (simp add: parseModelDescription_tree_def root_lookup same bindE_def errors)
  next
    case g: (Inr g)
    show ?thesis
    proof (cases "get to_string r ''<xmlattr>.fmiVersion''")
      case (Inl e)
      with g show ?thesis
        by (simp add: parseModelDescription_tree_def root_lookup same bindE_def errors)
    next
      case fv: (Inr fv)
      show ?thesis
      proof (cases "get to_string r ''<xmlattr>.modelName''")
        case (Inl e)
        with g fv show ?thesis
          by (simp add: parseModelDescription_tree_def root_lookup same bindE_def errors)
      next
        case (Inr mn)
        with g fv show ?thesis
          by (simp add: parseModelDescription_tree_def root_lookup same bindE_def loops)
      qed
    qed
  qed
qed

lemma without_variables_update:
  "without_variables (md\<lparr>coSimulation := cs\<rparr>) = (without_variables md)\<lparr>coSimulation := cs\<rparr>"
  "without_variables (md\<lparr>modelExchange := me\<rparr>) = (without_variables md)\<lparr>modelExchange := me\<rparr>"
  "without_variables (md\<lparr>base := (base md)\<lparr>defaultExperiment := de\<rparr>\<rparr>)
     = (without_variables md)\<lparr>base := (base (without_variables md))\<lparr>defaultExperiment := de\<rparr>\<rparr>"
  "without_variables (md\<lparr>base := (base md)\<lparr>modelStructure := ms\<rparr>\<rparr>)
     = (without_variables md)\<lparr>base := (base (without_variables md))\<lparr>modelStructure := ms\<rparr>\<rparr>"
  "without_variables (md\<lparr>base := (base md)\<lparr>modelVariables := mv\<rparr>\<rparr>) = without_variables md"
  by (cases md; simp add: without_variables_def)+

lemma without_structure_update:
  "without_structure (md\<lparr>coSimulation := cs\<rparr>) = (without_structure md)\<lparr>coSimulation := cs\<rparr>"
  "without_structure (md\<lparr>modelExchange := me\<rparr>) = (without_structure md)\<lparr>modelExchange := me\<rparr>"
  "without_structure (md\<lparr>base := (base md)\<lparr>defaultExperiment := de\<rparr>\<rparr>)
     = (without_structure md)\<lparr>base := (base (without_structure md))\<lparr>defaultExperiment := de\<rparr>\<rparr>"
  "without_structure (md\<lparr>base := (base md)\<lparr>modelVariables := mv\<rparr>\<rparr>)
     = (without_structure md)\<lparr>base := (base (without_structure md))\<lparr>modelVariables := mv\<rparr>\<rparr>"
  "without_structure (md\<lparr>base := (base md)\<lparr>modelStructure := ms\<rparr>\<rparr>) = without_structure md"
  by (cases md; simp add: without_structure_def)+

lemma top_level_cases:
  obtains (cosim) "k = ''CoSimulation''" | (mex) "k = ''ModelExchange''"
    | (dex) "k = ''DefaultExperiment''" | (mv) "k = ''ModelVariables''"
    | (ms) "k = ''ModelStructure''"
    | (other) "k \<noteq> ''CoSimulation''" "k \<noteq> ''ModelExchange''" "k \<noteq> ''DefaultExperiment''"
        "k \<noteq> ''ModelVariables''" "k \<noteq> ''ModelStructure''"
  by blast

lemma erase_modelVariables:
  "parseModelDescription_loop X vs md = Inr md' \<Longrightarrow>
     parseModelDescription_loop X (filter (\<lambda>v. fst v \<noteq> ''ModelVariables'') vs)
       (without_variables md) = Inr (without_variables md')"
proof (induction vs arbitrary: md)
  case Nil
  then show ?case by simp
next
  case (Cons v vs)
  show ?case
  proof (cases "fst v" rule: top_level_cases)
    case cosim
    with Cons.prems obtain a where a: "parseCoSimulationAttributes (snd v) = Inr a"
      and rest: "parseModelDescription_loop X vs (md\<lparr>coSimulation := Some a\<rparr>) = Inr md'"
      by (auto simp: bindE_def split: sum.splits)
    from Cons.IH [OF rest] cosim a show ?thesis
      by (simp add: bindE_def without_variables_update)
  next
    case mex
    with Cons.prems obtain a where a: "parseModelExchangeAttributes (snd v) = Inr a"
      and rest: "parseModelDescription_loop X vs (md\<lparr>modelExchange := Some a\<rparr>) = Inr md'"
      by (auto simp: bindE_def split: sum.splits)
    from Cons.IH [OF rest] mex a show ?thesis
      by (simp add: bindE_def without_variables_update)
  next
    case dex
    with Cons.prems have rest: "parseModelDescription_loop X vs
        (md\<lparr>base := (base md)\<lparr>defaultExperiment :=
           Some (parseDefaultExperiment X (snd v))\<rparr>\<rparr>) = Inr md'"
      by simp
    from Cons.IH [OF rest] dex show ?thesis
      by (simp add: without_variables_update)
  next
    case mv
    with Cons.prems obtain a where a: "parseModelVariables X (snd v) = Inr a"
      and rest: "parseModelDescription_loop X vs
        (md\<lparr>base := (base md)\<lparr>modelVariables := Some a\<rparr>\<rparr>) = Inr md'"
      by (auto simp: bindE_def split: sum.splits)
    from Cons.IH [OF rest] mv show ?thesis
      by (simp add: without_variables_update)
  next
    case ms
    with Cons.prems obtain a where a: "parseModelStructure (snd v) = Inr a"
      and rest: "parseModelDescription_loop X vs
        (md\<lparr>base := (base md)\<lparr>modelStructure := Some a\<rparr>\<rparr>) = Inr md'"
      by (auto simp: bindE_def split: sum.splits)
    from Cons.IH [OF rest] ms a show ?thesis
      by (simp add: bindE_def without_variables_update)
  next
    case other
    with Cons show ?thesis by simp
  qed
qed

lemma erase_modelStructure:
  "parseModelDescription_loop X vs md = Inr md' \<Longrightarrow>
     parseModelDescription_loop X (filter (\<lambda>v. fst v \<noteq> ''ModelStructure'') vs)
       (without_structure md) = Inr (without_structure md')"
proof (induction vs arbitrary: md)
  case Nil
  then show ?case by simp
next
  case (Cons v vs)
  show ?case
  proof (cases "fst v" rule: top_level_cases)
    case cosim
    with Cons.prems obtain a where a: "parseCoSimulationAttributes (snd v) = Inr a"
      and rest: "parseModelDescription_loop X vs (md\<lparr>coSimulation := Some a\<rparr>) = Inr md'"
      by (auto simp: bindE_def split: sum.splits)
    from Cons.IH [OF rest] cosim a show ?thesis
      by (simp add: bindE_def without_structure_update)
  next
    case mex
    with Cons.prems obtain a where a: "parseModelExchangeAttributes (snd v) = Inr a"
      and rest: "parseModelDescription_loop X vs (md\<lparr>modelExchange := Some a\<rparr>) = Inr md'"
      by (auto simp: bindE_def split: sum.splits)
    from Cons.IH [OF rest] mex a show ?thesis
      by (simp add: bindE_def without_structure_update)
  next
    case dex
    with Cons.prems have rest: "parseModelDescription_loop X vs
        (md\<lparr>base := (base md)\<lparr>defaultExperiment :=
           Some (parseDefaultExperiment X (snd v))\<rparr>\<rparr>) = Inr md'"
      by simp
    from Cons.IH [OF rest] dex show ?thesis
      by (simp add: without_structure_update)
  next
    case mv
    with Cons.prems obtain a where a: "parseModelVariables X (snd v) = Inr a"
      and rest: "parseModelDescription_loop X vs
        (md\<lparr>base := (base md)\<lparr>modelVariables := Some a\<rparr>\<rparr>) = Inr md'"
      by (auto simp: bindE_def split: sum.splits)
    from Cons.IH [OF rest] mv a show ?thesis
      by (simp add: bindE_def without_structure_update)
  next
    case ms
    with Cons.prems obtain a where a: "parseModelStructure (snd v) = Inr a"
      and rest: "parseModelDescription_loop X vs
        (md\<lparr>base := (base md)\<lparr>modelStructure := Some a\<rparr>\<rparr>) = Inr md'"
      by (auto simp: bindE_def split: sum.splits)
    from Cons.IH [OF rest] ms show ?thesis
      by (simp add: without_structure_update)
  next
    case other
    with Cons show ?thesis by simp
  qed
qed

lemma without_variables_absent: "modelVariables (base md) = None \<Longrightarrow> without_variables md = md"
  by (cases md) (simp add: without_variables_def)

lemma without_structure_absent: "modelStructure (base md) = None \<Longrightarrow> without_structure md = md"
  by (cases md) (simp add: without_structure_def)

lemma entries_filter:
  "k \<noteq> xmlcomment \<Longrightarrow>
    concat (map entries (filter (\<lambda>c. \<not> element_tagged k c) cs))
      = filter (\<lambda>v. fst v \<noteq> k) (concat (map entries cs))"
proof (induction cs)
  case Nil
  show ?case by simp
next
  case (Cons c cs)
  then show ?case by (cases c) auto
qed

lemma children_filter:
  assumes "k \<noteq> xmlattr" and "k \<noteq> xmlcomment"
  shows "children (element_tree as (filter (\<lambda>c. \<not> element_tagged k c) cs))
    = filter (\<lambda>v. fst v \<noteq> k) (children (element_tree as cs))"
  using assms by (simp add: children_element_tree entries_filter attr_nodes_def)

lemma map_of_filter_other:
  "k' \<noteq> k \<Longrightarrow> map_of (filter (\<lambda>v. fst v \<noteq> k) vs) k' = map_of vs k'"
  by (induction vs) auto

lemma parseModelDescription_single:
  "parseModelDescription X [Element t as cs]
     = parseModelDescription_tree X (Ptree [] [(t, element_tree as cs)])"
  by (simp add: parseModelDescription_def read_xml_single)

text \<open>
  C8, as the code has it. The absence of a \<^verbatim>\<open><ModelVariables>\<close> or of a
  \<^verbatim>\<open><ModelStructure>\<close> child makes no document fail: when a document parses, the
  document without its \<^verbatim>\<open><ModelVariables>\<close> children parses too, to the same
  description but for the variables, which are the null pointer; likewise for the
  structure. So the description of a document that parses and lacks the child has a null
  pointer there, not an empty collection.
\<close>

theorem absent_variables_and_structure:
  assumes "parseModelDescription X [Element ''fmiModelDescription'' as cs] = Inr md"
  shows "parseModelDescription X
      [Element ''fmiModelDescription'' as
         (filter (\<lambda>c. \<not> element_tagged ''ModelVariables'' c) cs)]
      = Inr (md\<lparr>base := (base md)\<lparr>modelVariables := None\<rparr>\<rparr>)
    \<and> parseModelDescription X
      [Element ''fmiModelDescription'' as
         (filter (\<lambda>c. \<not> element_tagged ''ModelStructure'' c) cs)]
      = Inr (md\<lparr>base := (base md)\<lparr>modelStructure := None\<rparr>\<rparr>)
    \<and> (list_all (\<lambda>c. \<not> element_tagged ''ModelVariables'' c) cs \<longrightarrow>
         modelVariables (base md) = None)
    \<and> (list_all (\<lambda>c. \<not> element_tagged ''ModelStructure'' c) cs \<longrightarrow>
         modelStructure (base md) = None)"
proof -
  let ?r = "element_tree as cs"
  let ?doc = "\<lambda>cs. parseModelDescription X [Element ''fmiModelDescription'' as cs]"
  have no_variables: "?doc (filter (\<lambda>c. \<not> element_tagged ''ModelVariables'' c) cs)
      = Inr (without_variables md)"
  proof -
    let ?r' = "element_tree as (filter (\<lambda>c. \<not> element_tagged ''ModelVariables'' c) cs)"
    have kids: "children ?r' = filter (\<lambda>v. fst v \<noteq> ''ModelVariables'') (children ?r)"
      by (rule children_filter) (simp_all add: xmlattr_def xmlcomment_def)
    have "\<forall>m. parseModelDescription_tree X (Ptree [] [(''fmiModelDescription'', ?r)]) = Inr m \<longrightarrow>
        parseModelDescription_tree X (Ptree [] [(''fmiModelDescription'', ?r')])
          = Inr (without_variables m)"
    proof (rule parseModelDescription_children)
      show "map_of (children ?r') ''<xmlattr>'' = map_of (children ?r) ''<xmlattr>''"
        unfolding kids by (rule map_of_filter_other) simp
    next
      fix md0 :: ModelDescription assume "modelVariables (base md0) = None"
      then have "without_variables md0 = md0"
        by (rule without_variables_absent)
      then show "\<forall>m. parseModelDescription_loop X (children ?r) md0 = Inr m \<longrightarrow>
          parseModelDescription_loop X (children ?r') md0 = Inr (without_variables m)"
        unfolding kids using erase_modelVariables [of X "children ?r" md0] by simp
    qed simp
    with assms show ?thesis
      by (simp add: parseModelDescription_single)
  qed
  have no_structure: "?doc (filter (\<lambda>c. \<not> element_tagged ''ModelStructure'' c) cs)
      = Inr (without_structure md)"
  proof -
    let ?r' = "element_tree as (filter (\<lambda>c. \<not> element_tagged ''ModelStructure'' c) cs)"
    have kids: "children ?r' = filter (\<lambda>v. fst v \<noteq> ''ModelStructure'') (children ?r)"
      by (rule children_filter) (simp_all add: xmlattr_def xmlcomment_def)
    have "\<forall>m. parseModelDescription_tree X (Ptree [] [(''fmiModelDescription'', ?r)]) = Inr m \<longrightarrow>
        parseModelDescription_tree X (Ptree [] [(''fmiModelDescription'', ?r')])
          = Inr (without_structure m)"
    proof (rule parseModelDescription_children)
      show "map_of (children ?r') ''<xmlattr>'' = map_of (children ?r) ''<xmlattr>''"
        unfolding kids by (rule map_of_filter_other) simp
    next
      fix md0 :: ModelDescription assume "modelStructure (base md0) = None"
      then have "without_structure md0 = md0"
        by (rule without_structure_absent)
      then show "\<forall>m. parseModelDescription_loop X (children ?r) md0 = Inr m \<longrightarrow>
          parseModelDescription_loop X (children ?r') md0 = Inr (without_structure m)"
        unfolding kids using erase_modelStructure [of X "children ?r" md0] by simp
    qed simp
    with assms show ?thesis
      by (simp add: parseModelDescription_single)
  qed
  have "modelVariables (base md) = None"
    if "list_all (\<lambda>c. \<not> element_tagged ''ModelVariables'' c) cs"
  proof -
    from that have "filter (\<lambda>c. \<not> element_tagged ''ModelVariables'' c) cs = cs"
      by (simp add: list_all_iff)
    with no_variables assms have "without_variables md = md" by simp
    then have "modelVariables (base (without_variables md)) = modelVariables (base md)"
      by simp
    then show ?thesis by (simp add: without_variables_def)
  qed
  moreover have "modelStructure (base md) = None"
    if "list_all (\<lambda>c. \<not> element_tagged ''ModelStructure'' c) cs"
  proof -
    from that have "filter (\<lambda>c. \<not> element_tagged ''ModelStructure'' c) cs = cs"
      by (simp add: list_all_iff)
    with no_structure assms have "without_structure md = md" by simp
    then have "modelStructure (base (without_structure md)) = modelStructure (base md)"
      by simp
    then show ?thesis by (simp add: without_structure_def)
  qed
  ultimately show ?thesis
    using no_variables no_structure
    by (simp add: without_variables_def without_structure_def)
qed

theorem absent_variables_and_structure_witness:
  "\<forall>X. parseModelDescription X
        [Element ''fmiModelDescription''
           [(''fmiVersion'', ''2.0''), (''modelName'', ''M''), (''guid'', ''{g}'')]
           [Element ''CoSimulation'' [(''modelIdentifier'', ''m'')] []]]
      = Inr \<lparr>ModelDescription.base =
              \<lparr>guid = ''{g}'', fmiVersion = ''2.0'', modelName = ''M'',
               description = [], author = [], version = [], license = [], copyright = [],
               generationTool = [], generationDateAndTime = [],
               numberOfEventIndicators = 0, variableNamingConvention = ''flat'',
               modelVariables = None, modelStructure = None, defaultExperiment = None\<rparr>,
            coSimulation =
              Some \<lparr>modelIdentifier = ''m'', needsExecutionTool = False,
                    canGetAndSetFMUstate = False, canSerializeFMUstate = False,
                    providesDirectionalDerivative = False,
                    canNotUseMemoryManagementFunctions = False,
                    canBeInstantiatedOnlyOncePerProcess = False, sourceFiles = [],
                    maxOutputDerivativeOrder = 0, canInterpolateInputs = False,
                    canRunAsynchronuously = False,
                    canHandleVariableCommunicationStepSize = False\<rparr>,
            modelExchange = None\<rparr>"
proof
  fix X
  show "parseModelDescription X
        [Element ''fmiModelDescription''
           [(''fmiVersion'', ''2.0''), (''modelName'', ''M''), (''guid'', ''{g}'')]
           [Element ''CoSimulation'' [(''modelIdentifier'', ''m'')] []]]
      = Inr \<lparr>ModelDescription.base =
              \<lparr>guid = ''{g}'', fmiVersion = ''2.0'', modelName = ''M'',
               description = [], author = [], version = [], license = [], copyright = [],
               generationTool = [], generationDateAndTime = [],
               numberOfEventIndicators = 0, variableNamingConvention = ''flat'',
               modelVariables = None, modelStructure = None, defaultExperiment = None\<rparr>,
            coSimulation =
              Some \<lparr>modelIdentifier = ''m'', needsExecutionTool = False,
                    canGetAndSetFMUstate = False, canSerializeFMUstate = False,
                    providesDirectionalDerivative = False,
                    canNotUseMemoryManagementFunctions = False,
                    canBeInstantiatedOnlyOncePerProcess = False, sourceFiles = [],
                    maxOutputDerivativeOrder = 0, canInterpolateInputs = False,
                    canRunAsynchronuously = False,
                    canHandleVariableCommunicationStepSize = False\<rparr>,
            modelExchange = None\<rparr>"
    using absent_variables_and_structure [of X
        "[(''fmiVersion'', ''2.0''), (''modelName'', ''M''), (''guid'', ''{g}'')]"
        "[Element ''CoSimulation'' [(''modelIdentifier'', ''m'')] []]"]
    by (simp add: parser_defs tree_defs get_defs translator_defs)
qed

text \<open>
  C8, as the specification states it, fails on the document with a
  \<^verbatim>\<open><CoSimulation>\<close> child only: it parses, and its variables and its structure
  are null pointers, which differ from the empty collections of the document with an
  empty \<^verbatim>\<open><ModelVariables/>\<close> and an empty \<^verbatim>\<open><ModelStructure/>\<close>. And a
  root without any attribute lacks both children and does not parse.
\<close>

theorem absent_sections_not_empty_counterexample:
  "\<forall>X. (\<exists>md. parseModelDescription X
        [Element ''fmiModelDescription''
           [(''fmiVersion'', ''2.0''), (''modelName'', ''M''), (''guid'', ''{g}'')]
           [Element ''CoSimulation'' [(''modelIdentifier'', ''m'')] []]] = Inr md
        \<and> modelVariables (base md) = None
        \<and> modelVariables (base md) \<noteq> Some \<lparr>variables = []\<rparr>
        \<and> modelStructure (base md) = None
        \<and> modelStructure (base md)
          \<noteq> Some \<lparr>outputs = [], derivatives = [], initialUnknowns = []\<rparr>)
     \<and> parseModelDescription X [Element ''fmiModelDescription'' [] []]
       = Inl (ptree_bad_path ''<xmlattr>.guid'')"
  by (simp add: parser_defs tree_defs get_defs translator_defs)

section \<open>The order of the children of the root\<close>

lemma loop_as_fold:
  "value_of (parseModelDescription_loop X vs md)
     = (if list_all (child_parses X) vs then Some (fold (child_update X) vs md) else None)"
proof (induction vs arbitrary: md)
  case Nil
  show ?case by (simp add: value_of_def)
next
  case (Cons v vs)
  show ?case
  proof (cases "fst v" rule: top_level_cases)
    case cosim
    then show ?thesis
      by (cases "parseCoSimulationAttributes (snd v)")
        (simp_all add: child_parses_def [of X v] child_update_def [of X v] bindE_def Cons.IH, simp add: value_of_def)
  next
    case mex
    then show ?thesis
      by (cases "parseModelExchangeAttributes (snd v)")
        (simp_all add: child_parses_def [of X v] child_update_def [of X v] bindE_def Cons.IH, simp add: value_of_def)
  next
    case dex
    then show ?thesis
      by (simp add: child_parses_def [of X v] child_update_def [of X v] Cons.IH)
  next
    case mv
    then show ?thesis
      by (cases "parseModelVariables X (snd v)")
        (simp_all add: child_parses_def [of X v] child_update_def [of X v] bindE_def Cons.IH, simp add: value_of_def)
  next
    case ms
    then show ?thesis
      by (cases "parseModelStructure (snd v)")
        (simp_all add: child_parses_def [of X v] child_update_def [of X v] bindE_def Cons.IH, simp add: value_of_def)
  next
    case other
    then show ?thesis
      by (simp add: child_parses_def [of X v] child_update_def [of X v] Cons.IH)
  qed
qed

lemma child_update_other:
  "fst v \<notin> set top_level_tags \<Longrightarrow> child_update X v md = md"
  by (simp add: child_update_def top_level_tags_def)

lemma child_update_commute:
  assumes "fst x \<noteq> fst y"
  shows "child_update X x (child_update X y md) = child_update X y (child_update X x md)"
proof -
  obtain b c m where md: "md = \<lparr>base = b, coSimulation = c, modelExchange = m\<rparr>"
    by (cases md) simp
  show ?thesis
    using assms unfolding md
    by (cases b; cases "fst x" rule: top_level_cases; cases "fst y" rule: top_level_cases)
      (simp_all add: child_update_def)
qed

lemma mset_entries:
  "mset (concat (map entries xs)) = sum_mset (image_mset (\<lambda>c. mset (entries c)) (mset xs))"
  by (induction xs) simp_all

lemma map_of_xmlattr:
  assumes "list_all well_formed cs"
  shows "map_of (children (element_tree as cs)) ''<xmlattr>'' = map_of (attr_nodes as) ''<xmlattr>''"
proof -
  have "map_of (concat (map entries cs)) ''<xmlattr>'' = None"
    using assms by (rule entries_no_key) (simp_all add: xmlcomment_def xml_name_def)
  then show ?thesis
    by (simp add: children_element_tree map_add_def split: option.splits)
qed

lemma entries_tagged:
  "x \<in> set (entries c) \<Longrightarrow> fst x \<in> set top_level_tags \<Longrightarrow> x = (tag c, tree_of c)"
  by (cases c) (auto simp: xmlcomment_def top_level_tags_def)

lemma top_level_child:
  assumes "x \<in> set (children (element_tree as cs))" and "fst x \<in> set top_level_tags"
  obtains c where "c \<in> set cs" and "x = (tag c, tree_of c)"
proof -
  from assms have "x \<in> set (concat (map entries cs))"
    by (auto simp: children_element_tree attr_nodes_def xmlattr_def top_level_tags_def
        split: if_splits)
  then obtain c where "c \<in> set cs" and "x \<in> set (entries c)"
    by auto
  with assms(2) that show ?thesis
    using entries_tagged by blast
qed

lemma top_level_children_unique:
  assumes dist: "distinct (filter (\<lambda>t. t \<in> set top_level_tags) (map tag cs))"
    and x: "x \<in> set (children (element_tree as cs))"
    and y: "y \<in> set (children (element_tree as cs))"
    and same: "fst x = fst y" and slot: "fst x \<in> set top_level_tags"
  shows "x = y"
proof -
  from x slot obtain c where c: "c \<in> set cs" "x = (tag c, tree_of c)"
    by (rule top_level_child)
  from y same slot obtain c' where c': "c' \<in> set cs" "y = (tag c', tree_of c')"
    by (auto elim: top_level_child)
  from dist have "inj_on tag (set (filter ((\<lambda>t. t \<in> set top_level_tags) \<circ> tag) cs))"
    by (simp add: filter_map distinct_map)
  moreover have "c \<in> set (filter ((\<lambda>t. t \<in> set top_level_tags) \<circ> tag) cs)"
    and "c' \<in> set (filter ((\<lambda>t. t \<in> set top_level_tags) \<circ> tag) cs)"
    using c c' same slot by simp_all
  moreover have "tag c = tag c'"
    using c c' same by simp
  ultimately have "c = c'"
    by (blast dest: inj_onD)
  with c c' show ?thesis by simp
qed

text \<open>
  C9. Two documents whose roots have the same attributes and the same children in
  another order, the children tagged \<^verbatim>\<open>CoSimulation\<close>, \<^verbatim>\<open>ModelExchange\<close>,
  \<^verbatim>\<open>DefaultExperiment\<close>, \<^verbatim>\<open>ModelVariables\<close> and \<^verbatim>\<open>ModelStructure\<close>
  having tags distinct from each other, parse to the same model description: when one
  has a value, the other has the same value.
\<close>

theorem root_children_order:
  assumes wf: "list_all well_formed cs"
    and perm: "mset cs' = mset cs"
    and dist: "distinct (filter (\<lambda>t. t \<in> set top_level_tags) (map tag cs))"
  shows "value_of (parseModelDescription X [Element ''fmiModelDescription'' as cs'])
       = value_of (parseModelDescription X [Element ''fmiModelDescription'' as cs])"
proof -
  let ?r = "element_tree as cs" and ?r' = "element_tree as cs'"
  from perm have sets: "set cs' = set cs"
    by (rule mset_eq_setD)
  with wf have wf': "list_all well_formed cs'"
    by (simp add: list_all_iff)
  have kids: "mset (children ?r) = mset (children ?r')"
    by (simp add: children_element_tree mset_entries perm)
  have attrs: "map_of (children ?r') ''<xmlattr>'' = map_of (children ?r) ''<xmlattr>''"
    by (simp add: map_of_xmlattr wf wf')
  have commute: "child_update X x \<circ> child_update X y = child_update X y \<circ> child_update X x"
    if "x \<in> set (children ?r)" and "y \<in> set (children ?r)" for x y
  proof (cases "fst x = fst y")
    case False
    then show ?thesis
      by (simp add: fun_eq_iff child_update_commute)
  next
    case True
    show ?thesis
    proof (cases "fst x \<in> set top_level_tags")
      case True
      with dist that \<open>fst x = fst y\<close> have "x = y"
        by (rule top_level_children_unique)
      then show ?thesis by simp
    next
      case False
      with \<open>fst x = fst y\<close> show ?thesis
        by (simp add: fun_eq_iff child_update_other)
    qed
  qed
  have loops: "value_of (parseModelDescription_loop X (children ?r') md0)
      = value_of (parseModelDescription_loop X (children ?r) md0)" for md0
  proof -
    have "fold (child_update X) (children ?r) = fold (child_update X) (children ?r')"
      using commute kids by (rule fold_multiset_equiv)
    moreover have "set (children ?r) = set (children ?r')"
      using kids by (rule mset_eq_setD)
    ultimately show ?thesis
      by (simp add: loop_as_fold list_all_iff)
  qed
  have "value_of (parseModelDescription_tree X (Ptree [] [(''fmiModelDescription'', ?r')]))
      = value_of (parseModelDescription_tree X (Ptree [] [(''fmiModelDescription'', ?r)]))"
    by (rule parseModelDescription_children
        [where R = "\<lambda>a b. value_of b = value_of a" and r = ?r and r' = ?r'])
      (simp_all add: attrs loops)
  then show ?thesis
    by (simp add: parseModelDescription_single)
qed

theorem root_children_order_witness:
  "\<forall>X. value_of (parseModelDescription X
        [Element ''fmiModelDescription''
           [(''fmiVersion'', ''2.0''), (''modelName'', ''M''), (''guid'', ''{g}'')]
           [Element ''ModelExchange'' [(''modelIdentifier'', ''b'')] [],
            Element ''CoSimulation'' [(''modelIdentifier'', ''a'')] []]])
      = value_of (parseModelDescription X
        [Element ''fmiModelDescription''
           [(''fmiVersion'', ''2.0''), (''modelName'', ''M''), (''guid'', ''{g}'')]
           [Element ''CoSimulation'' [(''modelIdentifier'', ''a'')] [],
            Element ''ModelExchange'' [(''modelIdentifier'', ''b'')] []]])
    \<and> value_of (parseModelDescription X
        [Element ''fmiModelDescription''
           [(''fmiVersion'', ''2.0''), (''modelName'', ''M''), (''guid'', ''{g}'')]
           [Element ''CoSimulation'' [(''modelIdentifier'', ''a'')] [],
            Element ''ModelExchange'' [(''modelIdentifier'', ''b'')] []]])
      = Some \<lparr>ModelDescription.base =
              \<lparr>guid = ''{g}'', fmiVersion = ''2.0'', modelName = ''M'',
               description = [], author = [], version = [], license = [], copyright = [],
               generationTool = [], generationDateAndTime = [],
               numberOfEventIndicators = 0, variableNamingConvention = ''flat'',
               modelVariables = None, modelStructure = None, defaultExperiment = None\<rparr>,
            coSimulation =
              Some \<lparr>modelIdentifier = ''a'', needsExecutionTool = False,
                    canGetAndSetFMUstate = False, canSerializeFMUstate = False,
                    providesDirectionalDerivative = False,
                    canNotUseMemoryManagementFunctions = False,
                    canBeInstantiatedOnlyOncePerProcess = False, sourceFiles = [],
                    maxOutputDerivativeOrder = 0, canInterpolateInputs = False,
                    canRunAsynchronuously = False,
                    canHandleVariableCommunicationStepSize = False\<rparr>,
            modelExchange =
              Some \<lparr>modelIdentifier = ''b'', needsExecutionTool = False,
                    canGetAndSetFMUstate = False, canSerializeFMUstate = False,
                    providesDirectionalDerivative = False,
                    canNotUseMemoryManagementFunctions = False,
                    canBeInstantiatedOnlyOncePerProcess = False, sourceFiles = [],
                    completedIntegratorStepNotNeeded = False\<rparr>\<rparr>"
proof
  fix X
  let ?cs = "[Element ''CoSimulation'' [(''modelIdentifier'', ''a'')] [],
              Element ''ModelExchange'' [(''modelIdentifier'', ''b'')] []]"
  let ?cs' = "[Element ''ModelExchange'' [(''modelIdentifier'', ''b'')] [],
               Element ''CoSimulation'' [(''modelIdentifier'', ''a'')] []]"
  have wf: "list_all well_formed ?cs"
    by (simp add: xml_name_def)
  have perm: "mset ?cs' = mset ?cs"
    by (simp add: add_mset_commute)
  have dist: "distinct (filter (\<lambda>t. t \<in> set top_level_tags) (map tag ?cs))"
    by (simp add: top_level_tags_def)
  from root_children_order [OF wf perm dist, of X
      "[(''fmiVersion'', ''2.0''), (''modelName'', ''M''), (''guid'', ''{g}'')]"]
  show "value_of (parseModelDescription X
        [Element ''fmiModelDescription''
           [(''fmiVersion'', ''2.0''), (''modelName'', ''M''), (''guid'', ''{g}'')]
           [Element ''ModelExchange'' [(''modelIdentifier'', ''b'')] [],
            Element ''CoSimulation'' [(''modelIdentifier'', ''a'')] []]])
      = value_of (parseModelDescription X
        [Element ''fmiModelDescription''
           [(''fmiVersion'', ''2.0''), (''modelName'', ''M''), (''guid'', ''{g}'')]
           [Element ''CoSimulation'' [(''modelIdentifier'', ''a'')] [],
            Element ''ModelExchange'' [(''modelIdentifier'', ''b'')] []]])
    \<and> value_of (parseModelDescription X
        [Element ''fmiModelDescription''
           [(''fmiVersion'', ''2.0''), (''modelName'', ''M''), (''guid'', ''{g}'')]
           [Element ''CoSimulation'' [(''modelIdentifier'', ''a'')] [],
            Element ''ModelExchange'' [(''modelIdentifier'', ''b'')] []]])
      = Some \<lparr>ModelDescription.base =
              \<lparr>guid = ''{g}'', fmiVersion = ''2.0'', modelName = ''M'',
               description = [], author = [], version = [], license = [], copyright = [],
               generationTool = [], generationDateAndTime = [],
               numberOfEventIndicators = 0, variableNamingConvention = ''flat'',
               modelVariables = None, modelStructure = None, defaultExperiment = None\<rparr>,
            coSimulation =
              Some \<lparr>modelIdentifier = ''a'', needsExecutionTool = False,
                    canGetAndSetFMUstate = False, canSerializeFMUstate = False,
                    providesDirectionalDerivative = False,
                    canNotUseMemoryManagementFunctions = False,
                    canBeInstantiatedOnlyOncePerProcess = False, sourceFiles = [],
                    maxOutputDerivativeOrder = 0, canInterpolateInputs = False,
                    canRunAsynchronuously = False,
                    canHandleVariableCommunicationStepSize = False\<rparr>,
            modelExchange =
              Some \<lparr>modelIdentifier = ''b'', needsExecutionTool = False,
                    canGetAndSetFMUstate = False, canSerializeFMUstate = False,
                    providesDirectionalDerivative = False,
                    canNotUseMemoryManagementFunctions = False,
                    canBeInstantiatedOnlyOncePerProcess = False, sourceFiles = [],
                    completedIntegratorStepNotNeeded = False\<rparr>\<rparr>"
    by (simp add: parser_defs tree_defs get_defs translator_defs value_of_def)
qed

section \<open>The variables of a model\<close>

lemma parseModelVariables_loop_Inr:
  "parseModelVariables_loop X vs vars = Inr r \<Longrightarrow>
     map Inr r = map Inr vars @ map (parseScalarVariable X) (keyed ''ScalarVariable'' vs)"
proof (induction vs arbitrary: vars)
  case Nil
  then show ?case by simp
next
  case (Cons v vs)
  show ?case
  proof (cases "fst v = ''ScalarVariable''")
    case True
    with Cons.prems obtain var where var: "parseScalarVariable X (snd v) = Inr var"
      and rest: "parseModelVariables_loop X vs (vars @ [var]) = Inr r"
      by (auto simp: bindE_def split: sum.splits)
    from Cons.IH [OF rest] True var show ?thesis by simp
  next
    case False
    with Cons show ?thesis by simp
  qed
qed

lemma parseModelVariables_loop_succeeds:
  "list_all (\<lambda>t. \<exists>var. parseScalarVariable X t = Inr var) (keyed ''ScalarVariable'' vs) \<Longrightarrow>
     \<exists>r. parseModelVariables_loop X vs vars = Inr r"
  by (induction vs arbitrary: vars) (auto simp: bindE_def)

lemma modelVariables_slot:
  "parseModelDescription_loop X vs md = Inr md' \<Longrightarrow>
     modelVariables (base md')
       = (if keyed ''ModelVariables'' vs = [] then modelVariables (base md)
          else value_of (parseModelVariables X (last (keyed ''ModelVariables'' vs))))"
proof (induction vs arbitrary: md)
  case Nil
  then show ?case by simp
next
  case (Cons v vs)
  show ?case
  proof (cases "fst v" rule: top_level_cases)
    case cosim
    with Cons.prems obtain a where
      "parseModelDescription_loop X vs (md\<lparr>coSimulation := Some a\<rparr>) = Inr md'"
      by (auto simp: bindE_def split: sum.splits)
    from Cons.IH [OF this] cosim show ?thesis by simp
  next
    case mex
    with Cons.prems obtain a where
      "parseModelDescription_loop X vs (md\<lparr>modelExchange := Some a\<rparr>) = Inr md'"
      by (auto simp: bindE_def split: sum.splits)
    from Cons.IH [OF this] mex show ?thesis by simp
  next
    case dex
    with Cons.prems have "parseModelDescription_loop X vs
        (md\<lparr>base := (base md)\<lparr>defaultExperiment :=
           Some (parseDefaultExperiment X (snd v))\<rparr>\<rparr>) = Inr md'"
      by simp
    from Cons.IH [OF this] dex show ?thesis by simp
  next
    case mv
    with Cons.prems obtain a where a: "parseModelVariables X (snd v) = Inr a"
      and rest: "parseModelDescription_loop X vs
        (md\<lparr>base := (base md)\<lparr>modelVariables := Some a\<rparr>\<rparr>) = Inr md'"
      by (auto simp: bindE_def split: sum.splits)
    from Cons.IH [OF rest] mv a show ?thesis by (simp add: value_of_def)
  next
    case ms
    with Cons.prems obtain a where
      "parseModelDescription_loop X vs
        (md\<lparr>base := (base md)\<lparr>modelStructure := Some a\<rparr>\<rparr>) = Inr md'"
      by (auto simp: bindE_def split: sum.splits)
    from Cons.IH [OF this] ms show ?thesis by simp
  next
    case other
    with Cons show ?thesis by simp
  qed
qed

lemma document_variables:
  assumes "parseModelDescription X [Element ''fmiModelDescription'' as nodes] = Inr md"
    and "filter (element_tagged ''ModelVariables'') nodes = [Element ''ModelVariables'' as' cs]"
  shows "\<exists>mv. parseModelVariables X (element_tree as' cs) = Inr mv
    \<and> modelVariables (base md) = Some mv"
proof -
  let ?r = "element_tree as nodes"
  have keyed: "keyed ''ModelVariables'' (children ?r) = [element_tree as' cs]"
    by (subst keyed_children) (simp_all add: xmlattr_def xmlcomment_def assms(2))
  have "\<forall>m. parseModelDescription_tree X (Ptree [] [(''fmiModelDescription'', ?r)]) = Inr m \<longrightarrow>
      modelVariables (base m) = value_of (parseModelVariables X (element_tree as' cs))
      \<and> modelVariables (base m) \<noteq> None"
  proof -
    have "\<forall>m. Inr m = parseModelDescription_tree X (Ptree [] [(''fmiModelDescription'', ?r)]) \<longrightarrow>
      modelVariables (base m) = value_of (parseModelVariables X (element_tree as' cs))
      \<and> modelVariables (base m) \<noteq> None"
    proof (rule parseModelDescription_children
        [where R = "\<lambda>a b. \<forall>m. Inr m = b \<longrightarrow>
          modelVariables (base m) = value_of (parseModelVariables X (element_tree as' cs))
          \<and> modelVariables (base m) \<noteq> None" and r = ?r and r' = ?r])
      fix md0 :: ModelDescription
      show "\<forall>m. Inr m = parseModelDescription_loop X (children ?r) md0 \<longrightarrow>
          modelVariables (base m) = value_of (parseModelVariables X (element_tree as' cs))
          \<and> modelVariables (base m) \<noteq> None"
      proof (intro allI impI)
        fix m assume m: "Inr m = parseModelDescription_loop X (children ?r) md0"
        then have slot: "modelVariables (base m)
            = value_of (parseModelVariables X (element_tree as' cs))"
          using modelVariables_slot [of X "children ?r" md0 m] by (simp add: keyed)
        have "Element ''ModelVariables'' as' cs
            \<in> set (filter (element_tagged ''ModelVariables'') nodes)"
          by (simp add: assms(2))
        then have "(''ModelVariables'', element_tree as' cs) \<in> set (children ?r)"
          by (intro element_entry) simp
        with m have "\<not> isl (parseModelVariables X (element_tree as' cs))"
          using parseModelDescription_loop_fails [of "element_tree as' cs" "children ?r" X _ md0]
          by (cases "parseModelVariables X (element_tree as' cs)") auto
        with slot show "modelVariables (base m)
            = value_of (parseModelVariables X (element_tree as' cs))
            \<and> modelVariables (base m) \<noteq> None"
          by (cases "parseModelVariables X (element_tree as' cs)") (simp_all add: value_of_def)
      qed
    qed simp_all
    then show ?thesis by metis
  qed
  with assms(1) show ?thesis
    by (cases "parseModelVariables X (element_tree as' cs)")
      (auto simp: parseModelDescription_single value_of_def)
qed

text \<open>
  C6. When a \<^verbatim>\<open><ModelVariables>\<close> element parses, its variables are the parsed
  children tagged \<^verbatim>\<open>ScalarVariable\<close>, one for each and in document order, whatever
  the other children are; and the element parses whenever each of these children does.
  When a document parses whose root has one \<^verbatim>\<open><ModelVariables>\<close> child, the
  variables of the description are those of that child.
\<close>

theorem model_variables_in_document_order:
  "(parseModelVariables X (element_tree as cs) = Inr mv \<longrightarrow>
      map Inr (variables mv)
        = map (\<lambda>c. parseScalarVariable X (tree_of c))
            (filter (element_tagged ''ScalarVariable'') cs))
   \<and> (list_all (\<lambda>c. \<exists>var. parseScalarVariable X (tree_of c) = Inr var)
          (filter (element_tagged ''ScalarVariable'') cs) \<longrightarrow>
        (\<exists>mv. parseModelVariables X (element_tree as cs) = Inr mv))
   \<and> (parseModelDescription X [Element ''fmiModelDescription'' as' nodes] = Inr md
        \<and> filter (element_tagged ''ModelVariables'') nodes = [Element ''ModelVariables'' as cs]
        \<longrightarrow>
        (\<exists>vs. modelVariables (base md) = Some vs
          \<and> map Inr (variables vs)
            = map (\<lambda>c. parseScalarVariable X (tree_of c))
                (filter (element_tagged ''ScalarVariable'') cs)))"
proof (intro conjI impI)
  have keyed: "keyed ''ScalarVariable'' (children (element_tree as cs))
      = map tree_of (filter (element_tagged ''ScalarVariable'') cs)"
    by (rule keyed_children) (simp_all add: xmlattr_def xmlcomment_def)
  have vars: "map Inr (variables m)
        = map (\<lambda>c. parseScalarVariable X (tree_of c))
            (filter (element_tagged ''ScalarVariable'') cs)"
    if "parseModelVariables X (element_tree as cs) = Inr m" for m
  proof -
    from that
    have "parseModelVariables_loop X (children (element_tree as cs)) [] = Inr (variables m)"
      by (auto simp: parseModelVariables_def bindE_def split: sum.splits)
    from parseModelVariables_loop_Inr [OF this] show ?thesis
      by (simp add: keyed comp_def)
  qed
  {
    assume "parseModelVariables X (element_tree as cs) = Inr mv"
    then show "map Inr (variables mv)
        = map (\<lambda>c. parseScalarVariable X (tree_of c))
            (filter (element_tagged ''ScalarVariable'') cs)"
      by (rule vars)
  }
  {
    assume "list_all (\<lambda>c. \<exists>var. parseScalarVariable X (tree_of c) = Inr var)
          (filter (element_tagged ''ScalarVariable'') cs)"
    then have "list_all (\<lambda>t. \<exists>var. parseScalarVariable X t = Inr var)
        (keyed ''ScalarVariable'' (children (element_tree as cs)))"
      by (simp add: keyed list_all_iff)
    from parseModelVariables_loop_succeeds [OF this, of "[]"]
    show "\<exists>mv. parseModelVariables X (element_tree as cs) = Inr mv"
      by (auto simp: parseModelVariables_def bindE_def)
  }
  {
    assume "parseModelDescription X [Element ''fmiModelDescription'' as' nodes] = Inr md
        \<and> filter (element_tagged ''ModelVariables'') nodes = [Element ''ModelVariables'' as cs]"
    then obtain m where "parseModelVariables X (element_tree as cs) = Inr m"
      and "modelVariables (base md) = Some m"
      using document_variables by blast
    with vars show "\<exists>vs. modelVariables (base md) = Some vs
          \<and> map Inr (variables vs)
            = map (\<lambda>c. parseScalarVariable X (tree_of c))
                (filter (element_tagged ''ScalarVariable'') cs)"
      by blast
  }
qed

theorem model_variables_in_document_order_witness:
  "\<forall>X. parseModelVariables X
       (element_tree []
         [Element ''ScalarVariable'' [(''name'', ''x''), (''valueReference'', ''1'')]
            [Element ''Boolean'' [] []],
          Element ''Annotations'' [] [],
          Comment ''skipped'',
          Element ''ScalarVariable'' [(''name'', ''y''), (''valueReference'', ''2'')]
            [Element ''String'' [] []]])
     = Inr \<lparr>variables =
         [\<lparr>ScalarVariable.base =
            \<lparr>ScalarVariableBase.name = ''x'', description = [], valueReference = 1,
             canHandleMultipleSetPerTimelnstant = False,
             causality = parseCausality X [], variability = parseVariability X [],
             initial = parseInitial X []\<rparr>,
          attribute = BooleanVariable \<lparr>start = None, declaredType = None\<rparr>\<rparr>,
          \<lparr>ScalarVariable.base =
            \<lparr>ScalarVariableBase.name = ''y'', description = [], valueReference = 2,
             canHandleMultipleSetPerTimelnstant = False,
             causality = parseCausality X [], variability = parseVariability X [],
             initial = parseInitial X []\<rparr>,
          attribute = StringVariable \<lparr>start = None, declaredType = None\<rparr>\<rparr>]\<rparr>
   \<and> parseModelDescription X
       [Element ''fmiModelDescription'' [(''fmiVersion'', ''2.0''), (''modelName'', ''M''), (''guid'', ''{g}'')]
          [Element ''ModelVariables'' []
             [Element ''ScalarVariable'' [(''name'', ''x''), (''valueReference'', ''1'')]
                [Element ''Boolean'' [] []],
              Element ''Annotations'' [] [],
              Comment ''skipped'',
              Element ''ScalarVariable'' [(''name'', ''y''), (''valueReference'', ''2'')]
                [Element ''String'' [] []]]]]
     = Inr \<lparr>ModelDescription.base =
         \<lparr>guid = ''{g}'', fmiVersion = ''2.0'', modelName = ''M'',
          description = [], author = [], version = [], license = [], copyright = [],
          generationTool = [], generationDateAndTime = [],
          numberOfEventIndicators = 0, variableNamingConvention = ''flat'',
          modelVariables = Some \<lparr>variables =
            [\<lparr>ScalarVariable.base =
            \<lparr>ScalarVariableBase.name = ''x'', description = [], valueReference = 1,
             canHandleMultipleSetPerTimelnstant = False,
             causality = parseCausality X [], variability = parseVariability X [],
             initial = parseInitial X []\<rparr>,
          attribute = BooleanVariable \<lparr>start = None, declaredType = None\<rparr>\<rparr>,
             \<lparr>ScalarVariable.base =
            \<lparr>ScalarVariableBase.name = ''y'', description = [], valueReference = 2,
             canHandleMultipleSetPerTimelnstant = False,
             causality = parseCausality X [], variability = parseVariability X [],
             initial = parseInitial X []\<rparr>,
          attribute = StringVariable \<lparr>start = None, declaredType = None\<rparr>\<rparr>]\<rparr>,
          modelStructure = None, defaultExperiment = None\<rparr>,
         coSimulation = None, modelExchange = None\<rparr>"
proof
  fix X
  show "parseModelVariables X
       (element_tree []
         [Element ''ScalarVariable'' [(''name'', ''x''), (''valueReference'', ''1'')]
            [Element ''Boolean'' [] []],
          Element ''Annotations'' [] [],
          Comment ''skipped'',
          Element ''ScalarVariable'' [(''name'', ''y''), (''valueReference'', ''2'')]
            [Element ''String'' [] []]])
     = Inr \<lparr>variables =
         [\<lparr>ScalarVariable.base =
            \<lparr>ScalarVariableBase.name = ''x'', description = [], valueReference = 1,
             canHandleMultipleSetPerTimelnstant = False,
             causality = parseCausality X [], variability = parseVariability X [],
             initial = parseInitial X []\<rparr>,
          attribute = BooleanVariable \<lparr>start = None, declaredType = None\<rparr>\<rparr>,
          \<lparr>ScalarVariable.base =
            \<lparr>ScalarVariableBase.name = ''y'', description = [], valueReference = 2,
             canHandleMultipleSetPerTimelnstant = False,
             causality = parseCausality X [], variability = parseVariability X [],
             initial = parseInitial X []\<rparr>,
          attribute = StringVariable \<lparr>start = None, declaredType = None\<rparr>\<rparr>]\<rparr>
   \<and> parseModelDescription X
       [Element ''fmiModelDescription'' [(''fmiVersion'', ''2.0''), (''modelName'', ''M''), (''guid'', ''{g}'')]
          [Element ''ModelVariables'' []
             [Element ''ScalarVariable'' [(''name'', ''x''), (''valueReference'', ''1'')]
                [Element ''Boolean'' [] []],
              Element ''Annotations'' [] [],
              Comment ''skipped'',
              Element ''ScalarVariable'' [(''name'', ''y''), (''valueReference'', ''2'')]
                [Element ''String'' [] []]]]]
     = Inr \<lparr>ModelDescription.base =
         \<lparr>guid = ''{g}'', fmiVersion = ''2.0'', modelName = ''M'',
          description = [], author = [], version = [], license = [], copyright = [],
          generationTool = [], generationDateAndTime = [],
          numberOfEventIndicators = 0, variableNamingConvention = ''flat'',
          modelVariables = Some \<lparr>variables =
            [\<lparr>ScalarVariable.base =
            \<lparr>ScalarVariableBase.name = ''x'', description = [], valueReference = 1,
             canHandleMultipleSetPerTimelnstant = False,
             causality = parseCausality X [], variability = parseVariability X [],
             initial = parseInitial X []\<rparr>,
          attribute = BooleanVariable \<lparr>start = None, declaredType = None\<rparr>\<rparr>,
             \<lparr>ScalarVariable.base =
            \<lparr>ScalarVariableBase.name = ''y'', description = [], valueReference = 2,
             canHandleMultipleSetPerTimelnstant = False,
             causality = parseCausality X [], variability = parseVariability X [],
             initial = parseInitial X []\<rparr>,
          attribute = StringVariable \<lparr>start = None, declaredType = None\<rparr>\<rparr>]\<rparr>,
          modelStructure = None, defaultExperiment = None\<rparr>,
         coSimulation = None, modelExchange = None\<rparr>"
    using model_variables_in_document_order [of X "[]"
        "[Element ''ScalarVariable'' [(''name'', ''x''), (''valueReference'', ''1'')]
            [Element ''Boolean'' [] []],
          Element ''Annotations'' [] [],
          Comment ''skipped'',
          Element ''ScalarVariable'' [(''name'', ''y''), (''valueReference'', ''2'')]
            [Element ''String'' [] []]]"
        _ "[(''fmiVersion'', ''2.0''), (''modelName'', ''M''), (''guid'', ''{g}'')]"
        "[Element ''ModelVariables'' []
           [Element ''ScalarVariable'' [(''name'', ''x''), (''valueReference'', ''1'')]
              [Element ''Boolean'' [] []],
            Element ''Annotations'' [] [],
            Comment ''skipped'',
            Element ''ScalarVariable'' [(''name'', ''y''), (''valueReference'', ''2'')]
              [Element ''String'' [] []]]]"]
    by (simp add: parser_defs tree_defs get_defs translator_defs type_defs)
qed

end
